theory Spec2Isabelle
  imports Complex_Main "HOL-Library.Sublist" "HOL-Library.AList"
begin

section \<open>Python values and errors\<close>

text \<open>
  Every exception that the modelled Python code can raise is a value of \<open>error\<close>;
  a function that may raise returns \<open>error + 'a\<close> with \<open>Inl\<close> for the exception.
\<close>

datatype error = IndexError | KeyError | ValueError | TypeError | RuntimeError

subsection \<open>Strings\<close>

text \<open>
  \<open>sub in s\<close> on Python strings: \<open>sub\<close> occurs in \<open>s\<close> as a contiguous block.
\<close>

fun py_in :: "string \<Rightarrow> string \<Rightarrow> bool" where
  "py_in sub [] = (sub = [])"
| "py_in sub (c # cs) = (prefix sub (c # cs) \<or> py_in sub cs)"

text \<open>
  \<open>s.split(sep)[0]\<close> and \<open>s.split(sep, 1)[0]\<close> for a non-empty separator: the text
  before the first occurrence of \<open>sep\<close>, the whole of \<open>s\<close> when there is none.
\<close>

fun before_first :: "string \<Rightarrow> string \<Rightarrow> string" where
  "before_first sep [] = []"
| "before_first sep (c # cs) = (if prefix sep (c # cs) then [] else c # before_first sep cs)"

text \<open>\<open>s.replace(c, "")\<close> for a one-character \<open>c\<close>: every occurrence of \<open>c\<close> is dropped.\<close>

definition remove_char :: "char \<Rightarrow> string \<Rightarrow> string" where
  "remove_char c s = filter (\<lambda>d. d \<noteq> c) s"

section \<open>Caption post-processing (\<open>utils.py\<close>)\<close>

text \<open>
  \<^verbatim>\<open>
  def caption_postprocess(text, model_name):
      if 'flamingo' in model_name:
          return text.split("Output", 1)[0].replace('"', "")
      elif 'idefics' in model_name:
          return text.split("Caption", 1)[0].replace('"', "").replace('\n', '')
  \<close>
  The function has no \<open>else\<close> branch and no \<open>raise\<close>: with any other model name
  control falls off its end and Python returns the value \<open>None\<close>. The result type is
  therefore \<open>string option\<close>, where \<open>None\<close> is Python's \<open>None\<close> (a returned value,
  not an exception) and \<open>Some s\<close> the returned string.
\<close>

definition caption_postprocess :: "string \<Rightarrow> string \<Rightarrow> string option" where
  "caption_postprocess text model_name =
     (if py_in ''flamingo'' model_name then
        Some (remove_char (CHR 0x22) (before_first ''Output'' text))
      else if py_in ''idefics'' model_name then
        Some (remove_char (CHR 0x0A) (remove_char (CHR 0x22) (before_first ''Caption'' text)))
      else None)"

section \<open>Data model of the scoring engine\<close>

text \<open>
  An example is a dataset record (a Python dict); the scoring code reads its fields
  \<open>idx\<close> and \<open>image_id\<close> and hands the record as a whole to the model interface.
\<close>

record example =
  idx :: int
  image_id :: int
  single_caption :: string

text \<open>
  The candidate set is a dict from index to example. It is an association list here;
  a dict has each key once, which is \<open>distinct (map fst candidate_set)\<close>.
\<close>

type_synonym candidate_set = "(int \<times> example) list"

text \<open>
  \<open>transfer_prompts\<close> is called with one sequence of examples (the baseline) and with
  a list of sequences (a batch); the argument is a value of either shape.
\<close>

datatype seq_arg = Flat "example list" | Nested "example list list"

text \<open>
  The model interface (\<open>src.lvlm_interface\<close>) and the metric (\<open>compute_cider\<close>) are
  collaborators outside the modelled files. The interface is a record of the operations
  that the scoring code calls, each with the arguments of the call site;
  \<open>attention_mask_len\<close> stands for \<open>x['attention_mask'].shape[1]\<close> and
  \<open>batch_decode\<close>, \<open>pad_token_id\<close>, \<open>eos_token_id\<close> for the members of
  \<open>interface.tokenizer\<close>. A tensor of probabilities is the list of its entries, as
  reals (the rounding of floating-point numbers is not modelled). Moving a tensor to
  \<open>interface.device\<close> does not change its value and is left out.
\<close>

record ('pr, 'inp, 'kw) interface =
  gen_ice_prompt :: "example \<Rightarrow> bool \<Rightarrow> string"
  transfer_prompts :: "seq_arg \<Rightarrow> bool \<Rightarrow> 'pr"
  prepare_input :: "'pr \<Rightarrow> bool \<Rightarrow> bool \<Rightarrow> 'inp"
  concat_prompt :: "example list \<Rightarrow> bool \<Rightarrow> bool \<Rightarrow> bool \<Rightarrow> string"
  get_input_token_num :: "string \<Rightarrow> nat"
  get_cond_prob :: "'inp \<Rightarrow> nat list \<Rightarrow> real list"
  generate :: "'inp \<Rightarrow> int \<Rightarrow> int \<Rightarrow> 'kw \<Rightarrow> int list list"
  attention_mask_len :: "'inp \<Rightarrow> nat"
  batch_decode :: "int list list \<Rightarrow> bool \<Rightarrow> string list"
  pad_token_id :: int
  eos_token_id :: int

text \<open>
  A prediction handed to \<open>compute_cider\<close> is a pair of an image id and a caption; the
  caption is \<open>None\<close> when \<open>caption_postprocess\<close> returned Python's \<open>None\<close>.
  \<open>compute_cider predictions path reduce_cider\<close> gives the per-image scores, a dict
  from image id to the value stored under \<open>'CIDEr'\<close>.
\<close>

type_synonym prediction = "int \<times> string option"

type_synonym cider_fun = "prediction list \<Rightarrow> string \<Rightarrow> bool \<Rightarrow> (int \<rightharpoonup> real)"

text \<open>
  The scoring functions return, next to their result, the log of the sequences they
  had rendered by \<open>transfer_prompts\<close> and of the prediction lists they had scored by
  \<open>compute_cider\<close>, in the order of the calls.
\<close>

datatype event =
  is_Transfer_Prompts: Transfer_Prompts seq_arg bool
| is_Compute_Cider: Compute_Cider "prediction list"

section \<open>Library operations used by the scoring engine\<close>

text \<open>
  \<open>more_itertools.chunked(xs, n)\<close> for \<open>n \<ge> 0\<close>: repeatedly takes \<open>n\<close> elements and
  stops at the first empty chunk, so it yields nothing when \<open>n = 0\<close>. (A negative
  \<open>n\<close> makes \<open>islice\<close> raise \<open>ValueError\<close>; the callers below test for it.)
\<close>

fun chunked :: "'a list \<Rightarrow> nat \<Rightarrow> 'a list list" where
  "chunked [] n = []"
| "chunked (x # xs) n =
     (if n = 0 then [] else take n (x # xs) # chunked (drop n (x # xs)) n)"

text \<open>
  Subtraction of one-dimensional tensors with broadcasting: equal lengths subtract
  entry by entry, a tensor of one entry is stretched to the other's length, any other
  pair of lengths raises \<open>RuntimeError\<close>.
\<close>

definition tensor_sub :: "real list \<Rightarrow> real list \<Rightarrow> error + real list" where
  "tensor_sub a b =
     (if length a = length b then Inr (map2 (-) a b)
      else if length b = 1 then Inr (map (\<lambda>x. x - hd b) a)
      else if length a = 1 then Inr (map (\<lambda>y. hd a - y) b)
      else Inl RuntimeError)"

text \<open>\<open>torch.cat\<close> of a list of one-dimensional tensors; it raises on the empty list.\<close>

definition torch_cat :: "real list list \<Rightarrow> error + real list" where
  "torch_cat ts = (if ts = [] then Inl RuntimeError else Inr (concat ts))"

text \<open>
  A string is the list of its characters, a character being a code point below 256.
  Of these, \<open>str.split()\<close> without a separator treats as white space the
  characters for which \<open>str.isspace\<close> holds: tab to carriage return, the four
  separators from U+001C, the space, U+0085 and U+00A0.
\<close>

definition py_isspace :: "char \<Rightarrow> bool" where
  "py_isspace c = (c \<in> set [CHR 0x09, CHR 0x0A, CHR 0x0B, CHR 0x0C, CHR 0x0D,
                             CHR 0x1C, CHR 0x1D, CHR 0x1E, CHR 0x1F, CHR 0x20,
                             CHR 0x85, CHR 0xA0])"

section \<open>The scoring engine (\<open>utils.py\<close>)\<close>

subsection \<open>Building the augmented sequences\<close>

text \<open>\<open>[candidate_set[i] for i in batch]\<close>; a missing key raises \<open>KeyError\<close>.\<close>

fun batch_data_of :: "candidate_set \<Rightarrow> int list \<Rightarrow> error + example list" where
  "batch_data_of candidate_set [] = Inr []"
| "batch_data_of candidate_set (i # batch) =
     (case map_of candidate_set i of
        None \<Rightarrow> Inl KeyError
      | Some d \<Rightarrow>
         (case batch_data_of candidate_set batch of
            Inl e \<Rightarrow> Inl e
          | Inr ds \<Rightarrow> Inr (d # ds)))"

text \<open>
  Both scoring functions build the augmented sequences of a batch by the same lines:
  \<^verbatim>\<open>
  if construct_order == 'left':
      add_new_icd_seq_list = [
          [new_icd] + choosed_icd_seq_list for new_icd in batch_data
      ]
  elif construct_order == 'right':
      add_new_icd_seq_list = [
          choosed_icd_seq_list[:-1] + [new_icd] + [choosed_icd_seq_list[-1]]
          for new_icd in batch_data
      ]
  else:
      raise ValueError(...)
  \<close>
  \<open>choosed_icd_seq_list[-1]\<close> raises \<open>IndexError\<close> on the empty list, once the
  comprehension has an element to evaluate it for.
\<close>

definition add_new_icd_seq_list ::
  "string \<Rightarrow> example list \<Rightarrow> example list \<Rightarrow> error + example list list" where
  "add_new_icd_seq_list construct_order choosed_icd_seq_list batch_data =
     (if construct_order = ''left'' then
        Inr (map (\<lambda>new_icd. [new_icd] @ choosed_icd_seq_list) batch_data)
      else if construct_order = ''right'' then
        (if batch_data \<noteq> [] \<and> choosed_icd_seq_list = [] then Inl IndexError
         else Inr (map (\<lambda>new_icd. butlast choosed_icd_seq_list @ [new_icd]
                                     @ [last choosed_icd_seq_list]) batch_data))
      else Inl ValueError)"

subsection \<open>Information score\<close>

text \<open>
  \<open>test_lang_x_input.split(split_token)[0] + split_token\<close>. With \<open>split_token\<close>
  \<open>None\<close> (its default) \<open>split\<close> cuts at white space, so \<open>[0]\<close> raises
  \<open>IndexError\<close> on a prompt without a word and otherwise adding \<open>None\<close> to a string
  raises \<open>TypeError\<close>; the empty separator raises \<open>ValueError\<close>.
\<close>

definition query_mask_part_of :: "string \<Rightarrow> string option \<Rightarrow> error + string" where
  "query_mask_part_of test_lang_x_input split_token =
     (case split_token of
        None \<Rightarrow> if list_all py_isspace test_lang_x_input then Inl IndexError
                else Inl TypeError
      | Some sep \<Rightarrow> if sep = [] then Inl ValueError
                    else Inr (before_first sep test_lang_x_input @ sep))"

text \<open>
  The loop over the batches of \<open>get_info_score\<close>, with the list
  \<open>info_score_list\<close> of the per-batch results and the log \<open>evs\<close> as accumulators.
\<close>

fun info_score_loop ::
  "('pr, 'inp, 'kw) interface \<Rightarrow> example list \<Rightarrow> candidate_set \<Rightarrow> string \<Rightarrow> string \<Rightarrow>
   real list \<Rightarrow> int list list \<Rightarrow> real list list \<Rightarrow> event list \<Rightarrow>
   event list \<times> (error + real list list)" where
  "info_score_loop iface choosed_icd_seq_list candidate_set construct_order query_mask_part
     cond_prob [] info_score_list evs = (evs, Inr info_score_list)"
| "info_score_loop iface choosed_icd_seq_list candidate_set construct_order query_mask_part
     cond_prob (batch # batches) info_score_list evs =
     (case batch_data_of candidate_set batch of
        Inl e \<Rightarrow> (evs, Inl e)
      | Inr batch_data \<Rightarrow>
         (case add_new_icd_seq_list construct_order choosed_icd_seq_list batch_data of
            Inl e \<Rightarrow> (evs, Inl e)
          | Inr seqs \<Rightarrow>
             (let evs' = evs @ [Transfer_Prompts (Nested seqs) False];
                  add_new_icd_input =
                    prepare_input iface (transfer_prompts iface (Nested seqs) False) False True;
                  mask_length_list =
                    map (\<lambda>t. get_input_token_num iface
                                (concat_prompt iface (butlast t) False True False
                                   @ query_mask_part)) seqs;
                  new_cond_prob = get_cond_prob iface add_new_icd_input mask_length_list
              in case tensor_sub new_cond_prob cond_prob of
                   Inl e \<Rightarrow> (evs', Inl e)
                 | Inr sub_info_score \<Rightarrow>
                     info_score_loop iface choosed_icd_seq_list candidate_set construct_order
                       query_mask_part cond_prob batches
                       (info_score_list @ [sub_info_score]) evs')))"

definition get_info_score ::
  "('pr, 'inp, 'kw) interface \<Rightarrow> example list \<Rightarrow> candidate_set \<Rightarrow> int \<Rightarrow> string option \<Rightarrow>
   string \<Rightarrow> event list \<times> (error + real list)" where
  "get_info_score iface choosed_icd_seq_list candidate_set batch_size split_token
     construct_order =
     (if choosed_icd_seq_list = [] then ([], Inl IndexError)
      else
        let test_lang_x_input = gen_ice_prompt iface (last choosed_icd_seq_list) True;
            evs0 = [Transfer_Prompts (Flat choosed_icd_seq_list) False];
            x_input = prepare_input iface
                        (transfer_prompts iface (Flat choosed_icd_seq_list) False) False True;
            icd_mask_prompt =
              concat_prompt iface (butlast choosed_icd_seq_list) False True False
        in case query_mask_part_of test_lang_x_input split_token of
             Inl e \<Rightarrow> (evs0, Inl e)
           | Inr query_mask_part \<Rightarrow>
              (let mask_length = get_input_token_num iface (icd_mask_prompt @ query_mask_part);
                   cond_prob = get_cond_prob iface x_input [mask_length];
                   cand_idx = sort (map fst candidate_set)
               in if batch_size < 0 then (evs0, Inl ValueError)
                  else
                    (case info_score_loop iface choosed_icd_seq_list candidate_set
                            construct_order query_mask_part cond_prob
                            (chunked cand_idx (nat batch_size)) [] evs0 of
                       (evs, Inl e) \<Rightarrow> (evs, Inl e)
                     | (evs, Inr info_score_list) \<Rightarrow> (evs, torch_cat info_score_list))))"

subsection \<open>CIDEr score\<close>

text \<open>
  Both the baseline and every batch of \<open>get_cider_score\<close> produce their texts by
  the same calls: render and tokenise with \<open>is_last_for_generation=True\<close>, generate,
  cut the prompt (\<open>output[prompt_len:]\<close>) and decode.
\<close>

definition generated_text :: "('pr, 'inp, 'kw) interface \<Rightarrow> seq_arg \<Rightarrow> 'kw \<Rightarrow> string list" where
  "generated_text iface arg gen_kwargs =
     (let prompts = transfer_prompts iface arg True;
          x_input = prepare_input iface prompts True True;
          outputs = generate iface x_input (pad_token_id iface) (eos_token_id iface) gen_kwargs;
          prompt_len = attention_mask_len iface x_input
      in batch_decode iface (map (drop prompt_len) outputs) True)"

text \<open>
  \<open>output_dict\<close> maps \<open>data['idx']\<close> to the pair of \<open>prediction\<close> and \<open>image_id\<close>.
  A Python dict keeps its keys in the order of their first insertion and replaces the
  value of a key that is already there, which is \<open>AList.update\<close>.
  \<^verbatim>\<open>
  for i, data in enumerate(batch_data):
      output_dict[data['idx']] = {}
      output_dict[data['idx']]['prediction'] = generated[i]
      output_dict[data['idx']]['image_id'] = data['image_id']
  \<close>
  \<open>generated[i]\<close> raises \<open>IndexError\<close> when fewer texts than examples came back.
\<close>

type_synonym output_dict = "(int \<times> (string \<times> int)) list"

fun store_predictions :: "example list \<Rightarrow> string list \<Rightarrow> output_dict \<Rightarrow> error + output_dict" where
  "store_predictions [] generated output_dict = Inr output_dict"
| "store_predictions (data # batch_data) generated output_dict =
     (case generated of
        [] \<Rightarrow> Inl IndexError
      | g # gs \<Rightarrow>
          store_predictions batch_data gs
            (AList.update (idx data) (g, image_id data) output_dict))"

text \<open>The loop over the batches of \<open>get_cider_score\<close>.\<close>

fun cider_loop ::
  "('pr, 'inp, 'kw) interface \<Rightarrow> example list \<Rightarrow> candidate_set \<Rightarrow> string \<Rightarrow> 'kw \<Rightarrow>
   int list list \<Rightarrow> output_dict \<Rightarrow> event list \<Rightarrow> event list \<times> (error + output_dict)" where
  "cider_loop iface choosed_icd_seq_list candidate_set construct_order gen_kwargs
     [] output_dict evs = (evs, Inr output_dict)"
| "cider_loop iface choosed_icd_seq_list candidate_set construct_order gen_kwargs
     (batch # batches) output_dict evs =
     (case batch_data_of candidate_set batch of
        Inl e \<Rightarrow> (evs, Inl e)
      | Inr batch_data \<Rightarrow>
         (case add_new_icd_seq_list construct_order choosed_icd_seq_list batch_data of
            Inl e \<Rightarrow> (evs, Inl e)
          | Inr seqs \<Rightarrow>
             (let evs' = evs @ [Transfer_Prompts (Nested seqs) True];
                  generated = generated_text iface (Nested seqs) gen_kwargs
              in case store_predictions batch_data generated output_dict of
                   Inl e \<Rightarrow> (evs', Inl e)
                 | Inr output_dict' \<Rightarrow>
                     cider_loop iface choosed_icd_seq_list candidate_set construct_order
                       gen_kwargs batches output_dict' evs')))"

text \<open>
  \<^verbatim>\<open>
  for idx in cand_idx:
      img_id = candidate_set[idx]['image_id']
      cider_score.append(cider_score_info[img_id]['CIDEr'])
  \<close>
\<close>

fun cider_score_of :: "(int \<rightharpoonup> real) \<Rightarrow> candidate_set \<Rightarrow> int list \<Rightarrow> error + real list" where
  "cider_score_of cider_score_info candidate_set [] = Inr []"
| "cider_score_of cider_score_info candidate_set (i # cand_idx) =
     (case map_of candidate_set i of
        None \<Rightarrow> Inl KeyError
      | Some d \<Rightarrow>
         (case cider_score_info (image_id d) of
            None \<Rightarrow> Inl KeyError
          | Some v \<Rightarrow>
             (case cider_score_of cider_score_info candidate_set cand_idx of
                Inl e \<Rightarrow> Inl e
              | Inr vs \<Rightarrow> Inr (v # vs))))"

text \<open>
  \<open>get_cider_score\<close>; \<open>compute_cider\<close>, which the module imports, is its first
  argument here. \<open>gen_kwargs\<close> defaults to \<open>None\<close>, and \<open>**None\<close> raises
  \<open>TypeError\<close> at the first call of \<open>generate\<close>. The baseline caption is the raw
  \<open>generated[0]\<close>; only the candidates' captions go through \<open>caption_postprocess\<close>.
\<close>

definition get_cider_score ::
  "cider_fun \<Rightarrow> ('pr, 'inp, 'kw) interface \<Rightarrow> example list \<Rightarrow> candidate_set \<Rightarrow> int \<Rightarrow>
   string \<Rightarrow> string \<Rightarrow> string \<Rightarrow> 'kw option \<Rightarrow> event list \<times> (error + real list)" where
  "get_cider_score compute_cider iface choosed_icd_seq_list candidate_set batch_size
     model_name train_ann_path construct_order gen_kwargs =
     (let evs0 = [Transfer_Prompts (Flat choosed_icd_seq_list) True]
      in case gen_kwargs of
           None \<Rightarrow> (evs0, Inl TypeError)
         | Some kw \<Rightarrow>
            (let generated = generated_text iface (Flat choosed_icd_seq_list) kw
             in if choosed_icd_seq_list = [] then (evs0, Inl IndexError)
                else if generated = [] then (evs0, Inl IndexError)
                else
                  (let pred_coco = [(image_id (last choosed_icd_seq_list), Some (hd generated))];
                       evs1 = evs0 @ [Compute_Cider pred_coco]
                   in case compute_cider pred_coco train_ann_path False
                             (image_id (last choosed_icd_seq_list)) of
                        None \<Rightarrow> (evs1, Inl KeyError)
                      | Some origin_cider_score \<Rightarrow>
                         (let cand_idx = sort (map fst candidate_set)
                          in if batch_size < 0 then (evs1, Inl ValueError)
                             else
                               (case cider_loop iface choosed_icd_seq_list candidate_set
                                       construct_order kw (chunked cand_idx (nat batch_size))
                                       [] evs1 of
                                  (evs, Inl e) \<Rightarrow> (evs, Inl e)
                                | (evs, Inr output_dict) \<Rightarrow>
                                   (let pred_coco' =
                                          map (\<lambda>(i, (prediction, img)).
                                                 (img, caption_postprocess prediction model_name))
                                            output_dict;
                                        evs2 = evs @ [Compute_Cider pred_coco'];
                                        cider_score_info =
                                          compute_cider pred_coco' train_ann_path False
                                    in case cider_score_of cider_score_info candidate_set
                                              cand_idx of
                                         Inl e \<Rightarrow> (evs2, Inl e)
                                       | Inr cider_score \<Rightarrow>
                                           (evs2, Inr (map (\<lambda>x. x - origin_cider_score)
                                                         cider_score))))))))"

section \<open>The random candidate sampler (\<open>candidate_sampler/random_sampler.py\<close>)\<close>

record rand_sampler =
  candidate_num :: int
  sampler_name :: string
  dataset_name :: string
  cache_dir :: string
  overwrite :: bool

text \<open>
  The random generator is the sequence \<open>draws\<close> of the lists that the successive
  calls of \<open>random.sample\<close> return; the state of the generator is the number of calls
  made so far. \<open>random.sample(population, k)\<close> raises \<open>ValueError\<close> when \<open>k\<close> is
  negative or larger than the population.
  \<^verbatim>\<open>
  while s_idx in random_candidate_set:
      random_candidate_set = random.sample(
          list(range(0, len(train_ds))), self.candidate_num
      )
  \<close>
  The loop may run forever; \<open>None\<close> is the run that does not return.
\<close>

partial_function (option) redraw ::
  "(nat \<Rightarrow> int list) \<Rightarrow> int \<Rightarrow> int list \<Rightarrow> nat \<Rightarrow> (int list \<times> nat) option" where
  "redraw draws s_idx random_candidate_set i =
     (if s_idx \<in> set random_candidate_set then redraw draws s_idx (draws i) (Suc i)
      else Some (random_candidate_set, i))"

text \<open>The loop over the anchors, with the dict \<open>candidate_set_idx\<close> as accumulator.\<close>

fun sample_loop ::
  "(nat \<Rightarrow> int list) \<Rightarrow> nat \<Rightarrow> int \<Rightarrow> int list \<Rightarrow> (int \<times> int list) list \<Rightarrow> nat \<Rightarrow>
   (error + (int \<times> int list) list) option" where
  "sample_loop draws n k [] candidate_set_idx i = Some (Inr candidate_set_idx)"
| "sample_loop draws n k (s_idx # anchor_set) candidate_set_idx i =
     (if k < 0 \<or> int n < k then Some (Inl ValueError)
      else
        (case redraw draws s_idx (draws i) (Suc i) of
           None \<Rightarrow> None
         | Some (random_candidate_set, i') \<Rightarrow>
             sample_loop draws n k anchor_set
               (AList.update s_idx random_candidate_set candidate_set_idx) i'))"

definition sample ::
  "rand_sampler \<Rightarrow> (nat \<Rightarrow> int list) \<Rightarrow> int list \<Rightarrow> 'a list \<Rightarrow>
   (error + (int \<times> int list) list) option" where
  "sample self draws anchor_set train_ds =
     sample_loop draws (length train_ds) (candidate_num self) anchor_set [] 0"

section \<open>Notions used to state the properties\<close>

text \<open>
  The chosen sequence with one candidate inserted: in front of the whole sequence for
  \<open>left\<close>, between the demonstrations and the trailing query for \<open>right\<close>.
\<close>

definition icd_inserted :: "string \<Rightarrow> example list \<Rightarrow> example \<Rightarrow> example list" where
  "icd_inserted construct_order choosed_icd_seq_list new_icd =
     (if construct_order = ''left'' then new_icd # choosed_icd_seq_list
      else butlast choosed_icd_seq_list @ [new_icd, last choosed_icd_seq_list])"

text \<open>
  The mask length of a sequence \<open>t\<close>: the token count of the prompt of \<open>t[:-1]\<close>
  followed by \<open>query_mask_part\<close>.
\<close>

definition mask_length_of :: "('pr, 'inp, 'kw) interface \<Rightarrow> string \<Rightarrow> example list \<Rightarrow> nat" where
  "mask_length_of iface query_mask_part t =
     get_input_token_num iface
       (concat_prompt iface (butlast t) False True False @ query_mask_part)"

text \<open>
  The model scores and generates sequence by sequence: what it returns for a sequence
  does not depend on the other sequences of the batch. \<open>P s m\<close> is the conditional
  probability of the answer of sequence \<open>s\<close> under mask length \<open>m\<close>, \<open>G s\<close> the text
  generated for \<open>s\<close>.
\<close>

definition itemwise_cond_prob ::
  "('pr, 'inp, 'kw) interface \<Rightarrow> (example list \<Rightarrow> nat \<Rightarrow> real) \<Rightarrow> bool" where
  "itemwise_cond_prob iface P \<longleftrightarrow>
     (\<forall>s m. get_cond_prob iface
               (prepare_input iface (transfer_prompts iface (Flat s) False) False True) [m]
             = [P s m]) \<and>
     (\<forall>seqs ms. length ms = length seqs \<longrightarrow>
        get_cond_prob iface
          (prepare_input iface (transfer_prompts iface (Nested seqs) False) False True) ms
        = map2 P seqs ms)"

definition itemwise_generation ::
  "('pr, 'inp, 'kw) interface \<Rightarrow> 'kw \<Rightarrow> (example list \<Rightarrow> string) \<Rightarrow> bool" where
  "itemwise_generation iface gen_kwargs G \<longleftrightarrow>
     (\<forall>s. generated_text iface (Flat s) gen_kwargs = [G s]) \<and>
     (\<forall>seqs. generated_text iface (Nested seqs) gen_kwargs = map G seqs)"

text \<open>
  A candidate set as the data model has it: every key once, and every example stored
  under its own \<open>idx\<close>.
\<close>

definition candidate_set_ok :: "candidate_set \<Rightarrow> bool" where
  "candidate_set_ok candidate_set \<longleftrightarrow>
     distinct (map fst candidate_set) \<and> list_all (\<lambda>(k, d). idx d = k) candidate_set"

text \<open>
  The predictions of the candidates in the ascending order of their indices, each
  the post-processed text that the model generates for the sequence with that
  candidate inserted, under the candidate's image id.
\<close>

definition candidate_predictions ::
  "(example list \<Rightarrow> string) \<Rightarrow> string \<Rightarrow> string \<Rightarrow> example list \<Rightarrow> candidate_set \<Rightarrow>
   prediction list" where
  "candidate_predictions G model_name construct_order choosed_icd_seq_list candidate_set =
     map (\<lambda>k. (image_id (the (map_of candidate_set k)),
                caption_postprocess
                  (G (icd_inserted construct_order choosed_icd_seq_list
                        (the (map_of candidate_set k)))) model_name))
       (sort (map fst candidate_set))"

text \<open>
  What \<open>random.sample(range(0, n), k)\<close> returns: \<open>k\<close> distinct elements of the range.
\<close>

definition valid_sample :: "nat \<Rightarrow> int \<Rightarrow> int list \<Rightarrow> bool" where
  "valid_sample n k xs \<longleftrightarrow>
     int (length xs) = k \<and> distinct xs \<and> list_all (\<lambda>x. 0 \<le> x \<and> x < int n) xs"

text \<open>
  A stub of the model interface for running the scoring functions on concrete data:
  prompts and inputs are the sequences themselves, a token is a character code, and the
  probabilities and texts are those of \<open>P\<close> and \<open>G\<close>.
\<close>

definition stub_interface ::
  "(example list \<Rightarrow> nat \<Rightarrow> real) \<Rightarrow> (example list \<Rightarrow> string) \<Rightarrow>
   (seq_arg, seq_arg, unit) interface" where
  "stub_interface P G =
     \<lparr> gen_ice_prompt = (\<lambda>d add_image_token. ''<image>Output:'' @ single_caption d),
       transfer_prompts = (\<lambda>arg is_last_for_generation. arg),
       prepare_input = (\<lambda>prompts is_last_for_generation add_eos_token. prompts),
       concat_prompt = (\<lambda>ds add_eos_token add_image_token is_last_for_generation.
                          concat (map single_caption ds)),
       get_input_token_num = length,
       get_cond_prob = (\<lambda>x mask_length.
                          case x of Flat s \<Rightarrow> map (P s) mask_length
                                  | Nested seqs \<Rightarrow> map2 P seqs mask_length),
       generate = (\<lambda>x pad eos kw.
                     case x of Flat s \<Rightarrow> [map of_char (G s)]
                             | Nested seqs \<Rightarrow> map (\<lambda>s. map of_char (G s)) seqs),
       attention_mask_len = (\<lambda>x. 0),
       batch_decode = (\<lambda>outputs skip_special_tokens. map (map char_of) outputs),
       pad_token_id = 0,
       eos_token_id = 1 \<rparr>"

definition ex :: "int \<Rightarrow> int \<Rightarrow> string \<Rightarrow> example" where
  "ex i img cap = \<lparr> idx = i, image_id = img, single_caption = cap \<rparr>"

text \<open>
  Stub probabilities that depend on the first example of the sequence only, with the
  values of the specification's scenario: 0.5, 0.1 and 0.3 for a sequence that starts
  with the example of index 0, 1 and 2, and 0.2 for any other.
\<close>

definition prob_by_first :: "example list \<Rightarrow> nat \<Rightarrow> real" where
  "prob_by_first s m =
     (case s of
        [] \<Rightarrow> 2 / 10
      | d # ds \<Rightarrow> if idx d = 0 then 5 / 10 else if idx d = 1 then 1 / 10
                  else if idx d = 2 then 3 / 10 else 2 / 10)"

text \<open>The stub model generates the caption field of the first example of the sequence.\<close>

definition text_by_first :: "example list \<Rightarrow> string" where
  "text_by_first s = (case s of [] \<Rightarrow> [] | d # ds \<Rightarrow> single_caption d)"

text \<open>
  A stub metric: the score of an image is a tenth of the length of its caption; of
  several predictions for one image it scores the first.
\<close>

definition stub_cider :: cider_fun where
  "stub_cider predictions path reduce_cider =
     map_of (map (\<lambda>(img, cap). (img, case cap of None \<Rightarrow> 0
                                          | Some c \<Rightarrow> real (length c) / 10)) predictions)"

text \<open>
  A stub interface whose texts depend on the batch, as those of a model do whose
  decoding is affected by the other sequences it is batched with: for the baseline it
  generates the empty text, and for every sequence of a batch as many letters \<open>a\<close>
  as the batch has sequences.
\<close>

definition batch_dependent_interface :: "(seq_arg, seq_arg, unit) interface" where
  "batch_dependent_interface =
     (stub_interface prob_by_first text_by_first)
       \<lparr> generate := (\<lambda>x pad eos kw.
                        case x of Flat s \<Rightarrow> [[]]
                                | Nested seqs \<Rightarrow>
                                    map (\<lambda>s. replicate (length seqs) (of_char CHR ''a''))
                                      seqs) \<rparr>"

text \<open>
  A sequence of draws for running the sampler on a training set of three examples
  with two candidates per anchor: the first draw is 1 and 2, every later one 0 and 2.
\<close>

definition example_draws :: "nat \<Rightarrow> int list" where
  "example_draws i = (if i = 0 then [1, 2] else [0, 2])"

definition example_sampler :: rand_sampler where
  "example_sampler =
     \<lparr> candidate_num = 2, sampler_name = ''RandSampler'', dataset_name = ''coco2017'',
       cache_dir = ''cache'', overwrite = False \<rparr>"

section \<open>Properties of caption post-processing\<close>

lemma remove_char_append: "remove_char c (xs @ ys) = remove_char c xs @ remove_char c ys"
  by (simp add: remove_char_def)

text \<open>
  Claim C7, as the code has it. On the text \<open>A dog.Output extra\<close>, a model name
  that contains \<open>flamingo\<close> gives \<open>A dog.\<close>: the text is cut at the marker
  \<open>Output\<close> and double quotes are removed. On the text \<open>"A cat."Caption: junk\<close>,
  a model name that contains \<open>idefics\<close> and does not contain \<open>flamingo\<close> (the code
  tests for \<open>flamingo\<close> first) gives \<open>A cat.\<close>: the text is cut at the marker
  \<open>Caption\<close>, and double quotes and newlines are removed.
\<close>

theorem caption_postprocess_examples:
  "(py_in ''flamingo'' m1 \<longrightarrow>
      caption_postprocess ''A dog.Output extra'' m1 = Some ''A dog.'') \<and>
   (py_in ''idefics'' m2 \<and> \<not> py_in ''flamingo'' m2 \<longrightarrow>
      caption_postprocess (CHR 0x22 # ''A cat.'' @ CHR 0x22 # ''Caption: junk'') m2
        = Some ''A cat.'')"
  by (simp add: caption_postprocess_def remove_char_def)

theorem caption_postprocess_examples_witness:
  "py_in ''flamingo'' ''flamingo'' \<and>
   caption_postprocess ''A dog.Output extra'' ''flamingo'' = Some ''A dog.'' \<and>
   py_in ''idefics'' ''idefics'' \<and> \<not> py_in ''flamingo'' ''idefics'' \<and>
   caption_postprocess (CHR 0x22 # ''A cat.'' @ CHR 0x22 # ''Caption: junk'') ''idefics''
     = Some ''A cat.''"
  using caption_postprocess_examples [of "''flamingo''" "''idefics''"]
  by simp

text \<open>
  Claim C7 as it is written covers every model name that contains \<open>idefics\<close>. A
  name that also contains \<open>flamingo\<close> takes the first branch: the text is cut at
  \<open>Output\<close>, which does not occur, and keeps its \<open>Caption\<close> part.
\<close>

theorem caption_postprocess_both_families_counterexample:
  "py_in ''idefics'' ''idefics-flamingo'' \<and>
   caption_postprocess (CHR 0x22 # ''A cat.'' @ CHR 0x22 # ''Caption: junk'') ''idefics-flamingo''
     = Some ''A cat.Caption: junk''"
  by (simp add: caption_postprocess_def remove_char_def)

text \<open>
  Claim C8 says that a model name of no recognised family makes
  \<open>caption_postprocess\<close> signal an unhandled-case error. The code raises nothing
  there: for every model name that contains neither \<open>flamingo\<close> nor \<open>idefics\<close> it
  returns Python's \<open>None\<close>, whatever the text. Evaluated at the text \<open>A dog.\<close> and
  the model name \<open>blip2\<close>.
\<close>

theorem caption_postprocess_unknown_model:
  "caption_postprocess ''A dog.'' ''blip2'' = None"
  by (simp add: caption_postprocess_def)

section \<open>Properties of the scoring engine\<close>

subsection \<open>Batches, lookups and tensors\<close>

lemma concat_chunked: "0 < n \<Longrightarrow> concat (chunked xs n) = xs"
  by (induction xs n rule: chunked.induct) auto

lemma chunked_eq_Nil: "chunked xs n = [] \<longleftrightarrow> xs = [] \<or> n = 0"
  by (cases xs) auto

lemma set_chunked: "b \<in> set (chunked xs n) \<Longrightarrow> set b \<subseteq> set xs"
proof (induction xs n rule: chunked.induct)
  case (1 n)
  then show ?case by simp
next
  case (2 x xs n)
  show ?case
  proof (cases "n = 0")
    case True
    with 2 show ?thesis by simp
  next
    case False
    with 2 have "b = take n (x # xs) \<or> b \<in> set (chunked (drop n (x # xs)) n)" by simp
    then show ?thesis
    proof
      assume "b = take n (x # xs)"
      then show ?thesis using set_take_subset by fastforce
    next
      assume "b \<in> set (chunked (drop n (x # xs)) n)"
      with 2 False have "set b \<subseteq> set (drop n (x # xs))" by simp
      then show ?thesis using set_drop_subset by fastforce
    qed
  qed
qed

lemma batch_data_of_keys:
  "set batch \<subseteq> fst ` set cs \<Longrightarrow>
   batch_data_of cs batch = Inr (map (\<lambda>i. the (map_of cs i)) batch)"
proof (induction batch)
  case Nil
  then show ?case by simp
next
  case (Cons i batch)
  then have "i \<in> fst ` set cs" by simp
  then obtain d where "map_of cs i = Some d"
    by (metis domD dom_map_of_conv_image_fst)
  with Cons show ?case by simp
qed

lemma batch_data_of_set:
  "batch_data_of cs batch = Inr ds \<Longrightarrow> set ds \<subseteq> snd ` set cs"
proof (induction batch arbitrary: ds)
  case Nil
  then show ?case by simp
next
  case (Cons i batch)
  from Cons.prems obtain d ds' where d: "map_of cs i = Some d"
    and r: "batch_data_of cs batch = Inr ds'" and ds: "ds = d # ds'"
    by (auto split: option.splits sum.splits)
  from d have "d \<in> snd ` set cs" by (force dest: map_of_SomeD)
  with Cons.IH [OF r] ds show ?case by simp
qed

lemma tensor_sub_single: "tensor_sub xs [p] = Inr (map (\<lambda>x. x - p) xs)"
  by (cases xs) (auto simp: tensor_sub_def)

lemma add_new_icd_seq_list_valid:
  "construct_order = ''left'' \<or> construct_order = ''right'' \<Longrightarrow> S \<noteq> [] \<Longrightarrow>
   add_new_icd_seq_list construct_order S ds = Inr (map (icd_inserted construct_order S) ds)"
  by (auto simp: add_new_icd_seq_list_def icd_inserted_def)

lemma info_score_loop_itemwise:
  assumes ord: "construct_order = ''left'' \<or> construct_order = ''right''"
    and S: "S \<noteq> []"
    and P: "itemwise_cond_prob iface P"
    and keys: "\<forall>b \<in> set batches. set b \<subseteq> fst ` set cs"
  shows "snd (info_score_loop iface S cs construct_order qmp [p0] batches acc evs) =
         Inr (acc @ map (map (\<lambda>k. P (icd_inserted construct_order S (the (map_of cs k)))
                                   (mask_length_of iface qmp
                                      (icd_inserted construct_order S (the (map_of cs k)))) - p0))
                      batches)"
  using keys
proof (induction batches arbitrary: acc evs)
  case Nil
  then show ?case by simp
next
  case (Cons b batches)
  let ?ds = "map (\<lambda>i. the (map_of cs i)) b"
  let ?seqs = "map (icd_inserted construct_order S) ?ds"
  let ?ms = "map (mask_length_of iface qmp) ?seqs"
  have bd: "batch_data_of cs b = Inr ?ds"
    using Cons.prems by (simp add: batch_data_of_keys)
  have sq: "add_new_icd_seq_list construct_order S ?ds = Inr ?seqs"
    using ord S by (rule add_new_icd_seq_list_valid)
  have ms: "map (\<lambda>t. get_input_token_num iface
                (concat_prompt iface (butlast t) False True False @ qmp)) ?seqs = ?ms"
    by (simp add: mask_length_of_def)
  have cp: "get_cond_prob iface
          (prepare_input iface (transfer_prompts iface (Nested ?seqs) False) False True) ?ms
        = map2 P ?seqs ?ms"
    using P by (simp add: itemwise_cond_prob_def)
  have m2: "map2 P ?seqs ?ms = map (\<lambda>k. P (icd_inserted construct_order S (the (map_of cs k)))
                                   (mask_length_of iface qmp
                                      (icd_inserted construct_order S (the (map_of cs k))))) b"
    by (induction b) auto
  have ts: "tensor_sub (map2 P ?seqs ?ms) [p0] =
        Inr (map (\<lambda>k. P (icd_inserted construct_order S (the (map_of cs k)))
                                   (mask_length_of iface qmp
                                      (icd_inserted construct_order S (the (map_of cs k)))) - p0) b)"
    unfolding m2 tensor_sub_single by simp
  have rest: "\<forall>b \<in> set batches. set b \<subseteq> fst ` set cs" using Cons.prems by simp
  show ?case
    using Cons.IH [OF rest]
    by (simp add: bd sq ms cp ts Let_def del: map_map)
qed

lemma set_sorted_keys: "set (sort (map fst cs)) = fst ` set cs"
  by simp

lemma chunked_keys:
  "\<forall>b \<in> set (chunked (sort (map fst cs)) n). set b \<subseteq> fst ` set cs"
  using set_chunked [of _ "sort (map fst cs)" n] by auto

lemma get_info_score_run:
  assumes ord: "construct_order = ''left'' \<or> construct_order = ''right''"
    and S: "S \<noteq> []"
    and sep: "sep \<noteq> []"
    and bs: "0 < batch_size"
    and cs: "cs \<noteq> []"
    and P: "itemwise_cond_prob iface P"
  shows "snd (get_info_score iface S cs batch_size (Some sep) construct_order) =
         Inr (map (\<lambda>k. P (icd_inserted construct_order S (the (map_of cs k)))
                         (mask_length_of iface
                            (before_first sep (gen_ice_prompt iface (last S) True) @ sep)
                            (icd_inserted construct_order S (the (map_of cs k))))
                       - P S (mask_length_of iface
                            (before_first sep (gen_ice_prompt iface (last S) True) @ sep) S))
                (sort (map fst cs)))"
proof -
  let ?qmp = "before_first sep (gen_ice_prompt iface (last S) True) @ sep"
  let ?p0 = "P S (mask_length_of iface ?qmp S)"
  let ?keys = "sort (map fst cs)"
  let ?f = "\<lambda>k. P (icd_inserted construct_order S (the (map_of cs k)))
                         (mask_length_of iface ?qmp
                            (icd_inserted construct_order S (the (map_of cs k)))) - ?p0"
  let ?batches = "chunked ?keys (nat batch_size)"
  have q: "query_mask_part_of (gen_ice_prompt iface (last S) True) (Some sep) = Inr ?qmp"
    using sep by (simp add: query_mask_part_of_def)
  have base: "get_cond_prob iface
          (prepare_input iface (transfer_prompts iface (Flat S) False) False True)
          [get_input_token_num iface (concat_prompt iface (butlast S) False True False @ ?qmp)]
        = [?p0]"
    using P by (simp add: itemwise_cond_prob_def mask_length_of_def)
  have loop: "snd (info_score_loop iface S cs construct_order ?qmp [?p0] ?batches []
                     [Transfer_Prompts (Flat S) False]) = Inr ([] @ map (map ?f) ?batches)"
    by (rule info_score_loop_itemwise [OF ord S P chunked_keys])
  have ne: "?batches \<noteq> []"
  proof -
    have "length ?keys \<noteq> 0" using cs by simp
    then have "?keys \<noteq> []" by (simp only: length_0_conv not_False_eq_True)
    then show ?thesis using bs by (simp add: chunked_eq_Nil)
  qed
  have cat: "torch_cat (map (map ?f) ?batches) = Inr (map ?f ?keys)"
  proof -
    have "concat (map (map ?f) ?batches) = map ?f (concat ?batches)"
      by (simp add: map_concat)
    also have "\<dots> = map ?f ?keys"
      using bs by (simp add: concat_chunked)
    finally show ?thesis using ne by (simp add: torch_cat_def)
  qed
  obtain evs r where run: "info_score_loop iface S cs construct_order ?qmp [?p0] ?batches []
                     [Transfer_Prompts (Flat S) False] = (evs, r)"
    by (cases "info_score_loop iface S cs construct_order ?qmp [?p0] ?batches []
                     [Transfer_Prompts (Flat S) False]")
  with loop have r: "r = Inr (map (map ?f) ?batches)" by simp
  show ?thesis
    using S bs by (simp add: get_info_score_def q base Let_def run r cat)
qed

subsection \<open>The log and the errors of the information score\<close>

lemma chunked_Cons_ex:
  "xs \<noteq> [] \<Longrightarrow> 0 < n \<Longrightarrow> \<exists>b bs. chunked xs n = b # bs \<and> set b \<subseteq> set xs"
  by (cases xs) (auto dest: in_set_takeD)

lemma sorted_keys_nonempty: "cs \<noteq> [] \<Longrightarrow> sort (map fst cs) \<noteq> []"
proof -
  assume "cs \<noteq> []"
  then have "length (sort (map fst cs)) \<noteq> 0" by simp
  then show ?thesis by (simp only: length_0_conv not_False_eq_True)
qed

lemma add_new_icd_seq_list_invalid:
  "construct_order \<noteq> ''left'' \<Longrightarrow> construct_order \<noteq> ''right'' \<Longrightarrow>
   add_new_icd_seq_list construct_order S ds = Inl ValueError"
  by (simp add: add_new_icd_seq_list_def)

lemma info_score_loop_invalid:
  assumes "construct_order \<noteq> ''left''" and "construct_order \<noteq> ''right''"
    and "set b \<subseteq> fst ` set cs"
  shows "info_score_loop iface S cs construct_order qmp cp (b # batches) acc evs
         = (evs, Inl ValueError)"
  using assms by (simp add: batch_data_of_keys add_new_icd_seq_list_invalid)

lemma get_info_score_invalid_order:
  assumes ord: "construct_order \<noteq> ''left''" "construct_order \<noteq> ''right''"
    and S: "S \<noteq> []" and sep: "sep \<noteq> []" and bs: "0 < batch_size" and cs: "cs \<noteq> []"
  shows "get_info_score iface S cs batch_size (Some sep) construct_order
         = ([Transfer_Prompts (Flat S) False], Inl ValueError)"
proof -
  obtain b batches where ch: "chunked (sort (map fst cs)) (nat batch_size) = b # batches"
    and b: "set b \<subseteq> set (sort (map fst cs))"
    using chunked_Cons_ex [OF sorted_keys_nonempty [OF cs], of "nat batch_size"] bs by auto
  from b have b': "set b \<subseteq> fst ` set cs" by simp
  show ?thesis
    using S sep bs
    by (simp add: get_info_score_def query_mask_part_of_def Let_def ch
        info_score_loop_invalid [OF ord b'] del: info_score_loop.simps)
qed

lemma info_score_loop_events:
  "Transfer_Prompts (Nested seqs) g \<in>
     set (fst (info_score_loop iface S cs construct_order qmp cp batches acc evs)) \<Longrightarrow>
   Transfer_Prompts (Nested seqs) g \<in> set evs \<or>
   (\<exists>ds. set ds \<subseteq> snd ` set cs \<and> add_new_icd_seq_list construct_order S ds = Inr seqs)"
proof (induction batches arbitrary: acc evs)
  case Nil
  then show ?case by simp
next
  case (Cons b batches)
  show ?case
  proof (cases "batch_data_of cs b")
    case (Inl e)
    with Cons.prems show ?thesis by simp
  next
    case bd: (Inr ds)
    show ?thesis
    proof (cases "add_new_icd_seq_list construct_order S ds")
      case (Inl e)
      with bd Cons.prems show ?thesis by simp
    next
      case sq: (Inr sqs)
      let ?new = "get_cond_prob iface
                (prepare_input iface (transfer_prompts iface (Nested sqs) False) False True)
                (map (\<lambda>t. get_input_token_num iface
                                (concat_prompt iface (butlast t) False True False @ qmp)) sqs)"
      show ?thesis
      proof (cases "tensor_sub ?new cp")
        case (Inl e)
        with bd sq Cons.prems batch_data_of_set [OF bd] show ?thesis by (auto simp: Let_def)
      next
        case (Inr sub)
        with bd sq Cons.prems have
          "Transfer_Prompts (Nested seqs) g \<in>
             set (fst (info_score_loop iface S cs construct_order qmp cp batches
                         (acc @ [sub]) (evs @ [Transfer_Prompts (Nested sqs) False])))"
          by (simp add: Let_def)
        from Cons.IH [OF this] sq batch_data_of_set [OF bd] show ?thesis by auto
      qed
    qed
  qed
qed

lemma get_info_score_events:
  assumes "Transfer_Prompts (Nested seqs) g \<in>
     set (fst (get_info_score iface S cs batch_size split_token construct_order))"
  shows "S \<noteq> [] \<and> (\<exists>ds. set ds \<subseteq> snd ` set cs \<and> add_new_icd_seq_list construct_order S ds = Inr seqs)"
proof -
  from assms have S: "S \<noteq> []"
    by (auto simp: get_info_score_def)
  have "\<exists>ds. set ds \<subseteq> snd ` set cs \<and> add_new_icd_seq_list construct_order S ds = Inr seqs"
  proof (cases "query_mask_part_of (gen_ice_prompt iface (last S) True) split_token")
    case (Inl e)
    with assms S show ?thesis by (simp add: get_info_score_def Let_def)
  next
    case (Inr qmp)
    show ?thesis
    proof (cases "batch_size < 0")
      case True
      with assms S Inr show ?thesis by (simp add: get_info_score_def Let_def)
    next
      case False
      let ?loop = "info_score_loop iface S cs construct_order qmp
            (get_cond_prob iface
               (prepare_input iface (transfer_prompts iface (Flat S) False) False True)
               [get_input_token_num iface
                  (concat_prompt iface (butlast S) False True False @ qmp)])
            (chunked (sort (map fst cs)) (nat batch_size)) []
            [Transfer_Prompts (Flat S) False]"
      from assms S Inr False
      have "Transfer_Prompts (Nested seqs) g \<in> set (fst ?loop)"
        by (auto simp: get_info_score_def Let_def split: prod.splits sum.splits)
      from info_score_loop_events [OF this] show ?thesis by simp
    qed
  qed
  with S show ?thesis by simp
qed

subsection \<open>The run of the CIDEr score\<close>

lemma update_fresh: "k \<notin> fst ` set al \<Longrightarrow> AList.update k v al = al @ [(k, v)]"
  by (induction al) auto

lemma store_predictions_map:
  "store_predictions ds (map h ds) od =
   Inr (foldl (\<lambda>d e. AList.update (idx e) (h e, image_id e) d) od ds)"
  by (induction ds arbitrary: od) auto

lemma foldl_update_fresh:
  "distinct (map fst od @ map kf xs) \<Longrightarrow>
   foldl (\<lambda>d x. AList.update (kf x) (vf x) d) od xs = od @ map (\<lambda>x. (kf x, vf x)) xs"
proof (induction xs arbitrary: od)
  case Nil
  then show ?case by simp
next
  case (Cons x xs)
  from Cons.prems have fresh: "kf x \<notin> fst ` set od" by auto
  from Cons.prems have "distinct (map fst (od @ [(kf x, vf x)]) @ map kf xs)" by auto
  from Cons.IH [OF this] show ?case by (simp add: update_fresh [OF fresh])
qed

lemma cider_loop_itemwise:
  assumes ord: "construct_order = ''left'' \<or> construct_order = ''right''"
    and S: "S \<noteq> []"
    and G: "itemwise_generation iface kw G"
    and keys: "\<forall>b \<in> set batches. set b \<subseteq> fst ` set cs"
  shows "cider_loop iface S cs construct_order kw batches od evs =
         (evs @ map (\<lambda>b. Transfer_Prompts
                          (Nested (map (\<lambda>k. icd_inserted construct_order S (the (map_of cs k))) b))
                          True) batches,
          Inr (foldl (\<lambda>d k. AList.update (idx (the (map_of cs k)))
                               (G (icd_inserted construct_order S (the (map_of cs k))),
                                image_id (the (map_of cs k))) d)
                 od (concat batches)))"
  using keys
proof (induction batches arbitrary: od evs)
  case Nil
  then show ?case by simp
next
  case (Cons b batches)
  let ?ds = "map (\<lambda>i. the (map_of cs i)) b"
  let ?seqs = "map (icd_inserted construct_order S) ?ds"
  let ?h = "\<lambda>e. G (icd_inserted construct_order S e)"
  have bd: "batch_data_of cs b = Inr ?ds"
    using Cons.prems by (simp add: batch_data_of_keys)
  have sq: "add_new_icd_seq_list construct_order S ?ds = Inr ?seqs"
    using ord S by (rule add_new_icd_seq_list_valid)
  have gen: "generated_text iface (Nested ?seqs) kw = map ?h ?ds"
    using G by (simp add: itemwise_generation_def)
  let ?od1 = "foldl (\<lambda>d k. AList.update (idx (the (map_of cs k)))
                               (G (icd_inserted construct_order S (the (map_of cs k))),
                                image_id (the (map_of cs k))) d) od b"
  have st: "store_predictions ?ds (map ?h ?ds) od = Inr ?od1"
    unfolding store_predictions_map by (simp add: foldl_map)
  have rest: "\<forall>b \<in> set batches. set b \<subseteq> fst ` set cs" using Cons.prems by simp
  have step: "cider_loop iface S cs construct_order kw (b # batches) od evs =
              cider_loop iface S cs construct_order kw batches ?od1
                (evs @ [Transfer_Prompts (Nested ?seqs) True])"
    by (simp only: cider_loop.simps bd sq sum.case Let_def gen st)
  show ?case
    unfolding step Cons.IH [OF rest] by simp
qed

lemma cider_loop_invalid:
  assumes "construct_order \<noteq> ''left''" and "construct_order \<noteq> ''right''"
    and "set b \<subseteq> fst ` set cs"
  shows "cider_loop iface S cs construct_order kw (b # batches) od evs = (evs, Inl ValueError)"
  using assms by (simp add: batch_data_of_keys add_new_icd_seq_list_invalid)

lemma cider_loop_events:
  "Transfer_Prompts (Nested seqs) g \<in>
     set (fst (cider_loop iface S cs construct_order kw batches od evs)) \<Longrightarrow>
   Transfer_Prompts (Nested seqs) g \<in> set evs \<or>
   (\<exists>ds. set ds \<subseteq> snd ` set cs \<and> add_new_icd_seq_list construct_order S ds = Inr seqs)"
proof (induction batches arbitrary: od evs)
  case Nil
  then show ?case by simp
next
  case (Cons b batches)
  show ?case
  proof (cases "batch_data_of cs b")
    case (Inl e)
    with Cons.prems show ?thesis by simp
  next
    case bd: (Inr ds)
    show ?thesis
    proof (cases "add_new_icd_seq_list construct_order S ds")
      case (Inl e)
      with bd Cons.prems show ?thesis by simp
    next
      case sq: (Inr sqs)
      show ?thesis
      proof (cases "store_predictions ds (generated_text iface (Nested sqs) kw) od")
        case (Inl e)
        with bd sq Cons.prems batch_data_of_set [OF bd] show ?thesis by (auto simp: Let_def)
      next
        case (Inr od')
        with bd sq Cons.prems have
          "Transfer_Prompts (Nested seqs) g \<in>
             set (fst (cider_loop iface S cs construct_order kw batches od'
                         (evs @ [Transfer_Prompts (Nested sqs) True])))"
          by (simp add: Let_def)
        from Cons.IH [OF this] sq batch_data_of_set [OF bd] show ?thesis by auto
      qed
    qed
  qed
qed

lemma cider_score_of_present:
  "\<forall>k \<in> set keys. \<exists>d v. map_of cs k = Some d \<and> info (image_id d) = Some v \<Longrightarrow>
   cider_score_of info cs keys = Inr (map (\<lambda>k. the (info (image_id (the (map_of cs k))))) keys)"
  by (induction keys) auto

lemma idx_key:
  assumes "candidate_set_ok cs" and "k \<in> fst ` set cs"
  shows "idx (the (map_of cs k)) = k"
proof -
  from assms(2) obtain d where d: "(k, d) \<in> set cs" by auto
  with assms(1) have "map_of cs k = Some d"
    by (simp add: candidate_set_ok_def)
  moreover from assms(1) d have "idx d = k"
    by (auto simp: candidate_set_ok_def list_all_iff)
  ultimately show ?thesis by simp
qed

lemma output_dict_all:
  assumes ok: "candidate_set_ok cs"
  shows "foldl (\<lambda>d k. AList.update (idx (the (map_of cs k)))
                        (G (icd_inserted construct_order S (the (map_of cs k))),
                         image_id (the (map_of cs k))) d)
           [] (sort (map fst cs))
         = map (\<lambda>k. (idx (the (map_of cs k)),
                     (G (icd_inserted construct_order S (the (map_of cs k))),
                      image_id (the (map_of cs k)))))
             (sort (map fst cs))"
proof -
  have "map (\<lambda>k. idx (the (map_of cs k))) (sort (map fst cs)) = map (\<lambda>k. k) (sort (map fst cs))"
    by (rule map_cong) (simp_all add: idx_key [OF ok])
  moreover have "distinct (sort (map fst cs))"
    using ok by (simp add: candidate_set_ok_def)
  ultimately have "distinct (map fst [] @ map (\<lambda>k. idx (the (map_of cs k))) (sort (map fst cs)))"
    by simp
  from foldl_update_fresh [OF this] show ?thesis by simp
qed

lemma get_cider_score_run:
  assumes ord: "construct_order = ''left'' \<or> construct_order = ''right''"
    and S: "S \<noteq> []"
    and bs: "0 < batch_size"
    and G: "itemwise_generation iface kw G"
    and origin: "compute_cider [(image_id (last S), Some (G S))] path False (image_id (last S))
                 = Some origin"
    and ok: "candidate_set_ok cs"
  shows "get_cider_score compute_cider iface S cs batch_size model_name path construct_order
           (Some kw) =
         ([Transfer_Prompts (Flat S) True, Compute_Cider [(image_id (last S), Some (G S))]]
            @ map (\<lambda>b. Transfer_Prompts
                          (Nested (map (\<lambda>k. icd_inserted construct_order S (the (map_of cs k))) b))
                          True) (chunked (sort (map fst cs)) (nat batch_size))
            @ [Compute_Cider (candidate_predictions G model_name construct_order S cs)],
          case cider_score_of
                 (compute_cider (candidate_predictions G model_name construct_order S cs)
                    path False) cs (sort (map fst cs)) of
            Inl e \<Rightarrow> Inl e
          | Inr v \<Rightarrow> Inr (map (\<lambda>x. x - origin) v))"
proof -
  let ?keys = "sort (map fst cs)"
  let ?batches = "chunked ?keys (nat batch_size)"
  let ?evs1 = "[Transfer_Prompts (Flat S) True, Compute_Cider [(image_id (last S), Some (G S))]]"
  let ?od = "map (\<lambda>k. (idx (the (map_of cs k)),
                     (G (icd_inserted construct_order S (the (map_of cs k))),
                      image_id (the (map_of cs k))))) ?keys"
  have gen: "generated_text iface (Flat S) kw = [G S]"
    using G by (simp add: itemwise_generation_def)
  have cc: "concat ?batches = ?keys"
    using bs by (simp add: concat_chunked)
  have loop: "cider_loop iface S cs construct_order kw ?batches [] ?evs1 =
        (?evs1 @ map (\<lambda>b. Transfer_Prompts
                          (Nested (map (\<lambda>k. icd_inserted construct_order S (the (map_of cs k))) b))
                          True) ?batches, Inr ?od)"
    unfolding cider_loop_itemwise [OF ord S G chunked_keys] cc output_dict_all [OF ok] ..
  have preds: "map (\<lambda>(i, (prediction, img)). (img, caption_postprocess prediction model_name)) ?od
               = candidate_predictions G model_name construct_order S cs"
    by (simp add: candidate_predictions_def)
  have neg: "\<not> batch_size < 0" using bs by simp
  show ?thesis
    unfolding get_cider_score_def Let_def option.case gen
    using S
    by (simp only: list.simps if_False list.sel origin option.case neg append.simps
          loop prod.case sum.case preds)
       (simp split: sum.splits)
qed

lemma get_cider_score_events:
  assumes "Transfer_Prompts (Nested seqs) g \<in>
     set (fst (get_cider_score compute_cider iface S cs batch_size model_name path
                 construct_order gen_kwargs))"
  shows "S \<noteq> [] \<and>
         (\<exists>ds. set ds \<subseteq> snd ` set cs \<and> add_new_icd_seq_list construct_order S ds = Inr seqs)"
proof (cases gen_kwargs)
  case None
  with assms show ?thesis by (simp add: get_cider_score_def)
next
  case (Some kw)
  show ?thesis
  proof (cases "S = [] \<or> generated_text iface (Flat S) kw = []")
    case True
    with assms Some have False
      by (cases "S = []") (simp_all add: get_cider_score_def Let_def)
    then show ?thesis ..
  next
    case ne: False
    let ?pred = "[(image_id (last S), Some (hd (generated_text iface (Flat S) kw)))]"
    show ?thesis
    proof (cases "compute_cider ?pred path False (image_id (last S))")
      case None
      with assms Some ne show ?thesis by (auto simp: get_cider_score_def Let_def)
    next
      case origin: (Some origin)
      show ?thesis
      proof (cases "batch_size < 0")
        case True
        with assms Some ne origin show ?thesis by (auto simp: get_cider_score_def Let_def)
      next
        case False
        let ?loop = "cider_loop iface S cs construct_order kw
              (chunked (sort (map fst cs)) (nat batch_size)) []
              [Transfer_Prompts (Flat S) True, Compute_Cider ?pred]"
        from assms Some ne origin False
        have "Transfer_Prompts (Nested seqs) g \<in> set (fst ?loop)"
          by (auto simp: get_cider_score_def Let_def split: prod.splits sum.splits)
        from cider_loop_events [OF this] ne show ?thesis by simp
      qed
    qed
  qed
qed

lemma add_new_icd_seq_list_member:
  assumes "add_new_icd_seq_list construct_order S ds = Inr seqs" and "S \<noteq> []"
    and "t \<in> set seqs"
  shows "last t = last S \<and>
         (construct_order = ''left'' \<or> construct_order = ''right'') \<and>
         (construct_order = ''left'' \<longrightarrow> (\<exists>c \<in> set ds. t = c # S)) \<and>
         (construct_order = ''right'' \<longrightarrow> (\<exists>c \<in> set ds. t = butlast S @ [c, last S]))"
  using assms by (auto simp: add_new_icd_seq_list_def split: if_splits)

lemma map_of_key:
  "k \<in> fst ` set cs \<Longrightarrow> \<exists>d. map_of cs k = Some d"
  by (induction cs) auto

lemma get_cider_score_result:
  assumes ord: "construct_order = ''left'' \<or> construct_order = ''right''"
    and S: "S \<noteq> []"
    and bs: "0 < batch_size"
    and G: "itemwise_generation iface kw G"
    and origin: "compute_cider [(image_id (last S), Some (G S))] path False (image_id (last S))
                 = Some origin"
    and ok: "candidate_set_ok cs"
    and present: "\<forall>k \<in> fst ` set cs.
                    compute_cider (candidate_predictions G model_name construct_order S cs)
                      path False (image_id (the (map_of cs k))) \<noteq> None"
  shows "snd (get_cider_score compute_cider iface S cs batch_size model_name path
                construct_order (Some kw)) =
         Inr (map (\<lambda>k. the (compute_cider
                               (candidate_predictions G model_name construct_order S cs)
                               path False (image_id (the (map_of cs k)))) - origin)
                (sort (map fst cs)))"
proof -
  let ?info = "compute_cider (candidate_predictions G model_name construct_order S cs) path False"
  have "\<forall>k \<in> set (sort (map fst cs)). \<exists>d v. map_of cs k = Some d \<and> ?info (image_id d) = Some v"
  proof
    fix k assume "k \<in> set (sort (map fst cs))"
    then have k: "k \<in> fst ` set cs" by simp
    from map_of_key [OF k] obtain d where d: "map_of cs k = Some d" ..
    from bspec [OF present k] have "?info (image_id (the (map_of cs k))) \<noteq> None" .
    with d show "\<exists>d v. map_of cs k = Some d \<and> ?info (image_id d) = Some v" by simp
  qed
  from cider_score_of_present [OF this]
  have sc: "cider_score_of ?info cs (sort (map fst cs)) =
        Inr (map (\<lambda>k. the (?info (image_id (the (map_of cs k))))) (sort (map fst cs)))" .
  have "snd (get_cider_score compute_cider iface S cs batch_size model_name path
                construct_order (Some kw)) =
        (case cider_score_of ?info cs (sort (map fst cs)) of
            Inl e \<Rightarrow> Inl e
          | Inr v \<Rightarrow> Inr (map (\<lambda>x. x - origin) v))"
    by (simp only: get_cider_score_run
          [where G = G and S = S and compute_cider = compute_cider, OF ord S bs G origin ok]
          snd_conv)
  also have "\<dots> = Inr (map (\<lambda>x. x - origin)
                       (map (\<lambda>k. the (?info (image_id (the (map_of cs k))))) (sort (map fst cs))))"
    by (simp only: sc sum.case)
  finally show ?thesis by (simp only: map_map comp_def)
qed

lemma cider_loop_batch_invariant:
  assumes G: "itemwise_generation iface kw G" and b1: "0 < n1" and b2: "0 < n2"
    and S: "S \<noteq> []"
  shows "snd (cider_loop iface S cs construct_order kw (chunked (sort (map fst cs)) n1) [] evs)
       = snd (cider_loop iface S cs construct_order kw (chunked (sort (map fst cs)) n2) [] evs)"
proof (cases "construct_order = ''left'' \<or> construct_order = ''right''")
  case True
  show ?thesis
    using b1 b2
    by (simp add: cider_loop_itemwise [where G = G, OF True S G chunked_keys] concat_chunked)
next
  case False
  then have ord: "construct_order \<noteq> ''left''" "construct_order \<noteq> ''right''" by simp_all
  show ?thesis
  proof (cases "cs = []")
    case True
    then show ?thesis by simp
  next
    case False
    from chunked_Cons_ex [OF sorted_keys_nonempty [OF False] b1]
    obtain c1 r1 where c1: "chunked (sort (map fst cs)) n1 = c1 # r1"
      and s1: "set c1 \<subseteq> fst ` set cs" by auto
    from chunked_Cons_ex [OF sorted_keys_nonempty [OF False] b2]
    obtain c2 r2 where c2: "chunked (sort (map fst cs)) n2 = c2 # r2"
      and s2: "set c2 \<subseteq> fst ` set cs" by auto
    show ?thesis
      by (simp only: c1 c2 cider_loop_invalid [OF ord s1] cider_loop_invalid [OF ord s2])
  qed
qed

lemma get_cider_score_snd:
  "snd (get_cider_score compute_cider iface S cs batch_size model_name path construct_order
          (Some kw)) =
   (if S = [] \<or> generated_text iface (Flat S) kw = [] then Inl IndexError
    else case compute_cider [(image_id (last S), Some (hd (generated_text iface (Flat S) kw)))]
                path False (image_id (last S)) of
           None \<Rightarrow> Inl KeyError
         | Some origin \<Rightarrow>
            if batch_size < 0 then Inl ValueError
            else case snd (cider_loop iface S cs construct_order kw
                             (chunked (sort (map fst cs)) (nat batch_size)) []
                             [Transfer_Prompts (Flat S) True,
                              Compute_Cider [(image_id (last S),
                                 Some (hd (generated_text iface (Flat S) kw)))]]) of
                   Inl e \<Rightarrow> Inl e
                 | Inr od \<Rightarrow>
                    (case cider_score_of
                            (compute_cider
                               (map (\<lambda>(i, (prediction, img)).
                                       (img, caption_postprocess prediction model_name)) od)
                               path False) cs (sort (map fst cs)) of
                       Inl e \<Rightarrow> Inl e
                     | Inr v \<Rightarrow> Inr (map (\<lambda>x. x - origin) v)))"
  by (auto simp add: get_cider_score_def Let_def split: option.splits prod.splits sum.splits
      simp del: cider_loop.simps)

lemma candidate_of_key:
  assumes "distinct (map fst cs)" and "k \<in> fst ` set cs"
  shows "(k, the (map_of cs k)) \<in> set cs"
proof -
  from assms(2) obtain d where d: "(k, d) \<in> set cs" by auto
  with assms(1) have "map_of cs k = Some d" by simp
  with d show ?thesis by simp
qed

lemma image_id_key:
  assumes ok: "candidate_set_ok cs"
    and img: "distinct (map (\<lambda>(k, d). image_id d) cs)"
    and k: "k \<in> fst ` set cs" and k': "k' \<in> fst ` set cs"
    and same: "image_id (the (map_of cs k')) = image_id (the (map_of cs k))"
  shows "k' = k"
proof -
  from ok have d: "distinct (map fst cs)" by (simp add: candidate_set_ok_def)
  from img have inj: "inj_on (\<lambda>(k, d). image_id d) (set cs)" by (simp add: distinct_map)
  have "(k, the (map_of cs k)) \<in> set cs" "(k', the (map_of cs k')) \<in> set cs"
    using candidate_of_key [OF d] k k' by simp_all
  then have m: "(k, the (map_of cs k)) \<in> set cs" and m': "(k', the (map_of cs k')) \<in> set cs"
    by simp_all
  have "(\<lambda>(k, d). image_id d) (k', the (map_of cs k'))
        = (\<lambda>(k, d). image_id d) (k, the (map_of cs k))"
    using same by simp
  from inj_onD [OF inj this m' m] show ?thesis by simp
qed

subsection \<open>The stub interface\<close>

lemma stub_itemwise_cond_prob: "itemwise_cond_prob (stub_interface P G) P"
  by (simp add: itemwise_cond_prob_def stub_interface_def)

lemma stub_itemwise_generation: "itemwise_generation (stub_interface P G) u G"
  by (simp add: itemwise_generation_def generated_text_def stub_interface_def comp_def)

lemma stub_generated_text:
  "generated_text (stub_interface P G) (Flat s) u = [G s]"
  using stub_itemwise_generation [of P G u] by (simp add: itemwise_generation_def)

lemma stub_generated_text_batch:
  "generated_text (stub_interface P G) (Nested seqs) u = map G seqs"
  using stub_itemwise_generation [of P G u] by (simp add: itemwise_generation_def)

lemma char_of_97: "char_of (97 :: int) = CHR ''a''"
  using char_of_char [of "CHR ''a''", where ?'a = int] by simp

lemma shared_image_id_run:
  "get_cider_score stub_cider (stub_interface prob_by_first text_by_first)
     [ex 9 90 ''a red bus.'']
     [(1, ex 1 7 ''two cats''), (2, ex 2 7 ''a dog on a sofa'')]
     1 ''open_flamingo'' ''ann.json'' ''left'' (Some ())
   = ([Transfer_Prompts (Flat [ex 9 90 ''a red bus.'']) True,
       Compute_Cider [(90, Some ''a red bus.'')],
       Transfer_Prompts (Nested [[ex 1 7 ''two cats'', ex 9 90 ''a red bus.'']]) True,
       Transfer_Prompts (Nested [[ex 2 7 ''a dog on a sofa'', ex 9 90 ''a red bus.'']]) True,
       Compute_Cider [(7, Some ''two cats''), (7, Some ''a dog on a sofa'')]],
      Inr [- 2 / 10, - 2 / 10])"
  by (simp add: get_cider_score_def Let_def add_new_icd_seq_list_def stub_generated_text
      stub_generated_text_batch stub_cider_def text_by_first_def ex_def
      caption_postprocess_def remove_char_def)

subsection \<open>Information score\<close>

text \<open>
  Claim C1, as the code has it. Let the chosen sequence \<open>S\<close> be non-empty (its last
  element is the query), the candidate set non-empty, \<open>batch_size\<close> at least 1,
  \<open>split_token\<close> a non-empty string, \<open>construct_order\<close> one of \<open>left\<close> and
  \<open>right\<close>, and let the model score sequence by sequence with probabilities \<open>P\<close>.
  Then \<open>get_info_score\<close> returns a score vector of the length of the candidate set,
  aligned with the candidate indices in ascending order, and the entry of a candidate
  is the conditional probability of the answer given \<open>S\<close> with that candidate
  inserted, minus the conditional probability given \<open>S\<close> alone.
\<close>

theorem get_info_score_scores:
  assumes "construct_order = ''left'' \<or> construct_order = ''right''"
    and "S \<noteq> []" and "sep \<noteq> []" and "0 < batch_size" and "cs \<noteq> []"
    and "itemwise_cond_prob iface P"
  shows "\<exists>v. snd (get_info_score iface S cs batch_size (Some sep) construct_order) = Inr v \<and>
             length v = length cs \<and>
             v = map (\<lambda>k. P (icd_inserted construct_order S (the (map_of cs k)))
                            (mask_length_of iface
                               (before_first sep (gen_ice_prompt iface (last S) True) @ sep)
                               (icd_inserted construct_order S (the (map_of cs k))))
                          - P S (mask_length_of iface
                               (before_first sep (gen_ice_prompt iface (last S) True) @ sep) S))
                   (sort (map fst cs))"
  using get_info_score_run [OF assms] by simp

text \<open>
  The scenario of the specification: the query alone has probability 0.2, with the
  candidates 0, 1 and 2 inserted 0.5, 0.1 and 0.3; the scores are 0.3, -0.1 and 0.1 in
  the order of the indices, whatever the order of the dict and with batches of two.
\<close>

theorem get_info_score_scores_witness:
  "itemwise_cond_prob (stub_interface prob_by_first text_by_first) prob_by_first \<and>
   snd (get_info_score (stub_interface prob_by_first text_by_first) [ex 9 90 ''q'']
          [(2, ex 2 12 ''c''), (0, ex 0 10 ''a''), (1, ex 1 11 ''b'')] 2 (Some ''Output:'') ''left'')
     = Inr [3 / 10, - 1 / 10, 1 / 10]"
proof -
  have P: "itemwise_cond_prob (stub_interface prob_by_first text_by_first) prob_by_first"
    by (rule stub_itemwise_cond_prob)
  have "\<exists>v. snd (get_info_score (stub_interface prob_by_first text_by_first) [ex 9 90 ''q'']
          [(2, ex 2 12 ''c''), (0, ex 0 10 ''a''), (1, ex 1 11 ''b'')] 2 (Some ''Output:'') ''left'')
           = Inr v \<and> length v = 3 \<and> v = [3 / 10, - 1 / 10, 1 / 10]"
    using get_info_score_scores [of "''left''" "[ex 9 90 ''q'']" "''Output:''" 2
        "[(2, ex 2 12 ''c''), (0, ex 0 10 ''a''), (1, ex 1 11 ''b'')]"
        "stub_interface prob_by_first text_by_first" prob_by_first, OF _ _ _ _ _ P]
    by (simp add: icd_inserted_def prob_by_first_def ex_def)
  with P show ?thesis by auto
qed

text \<open>
  Claim C1 as it is written covers every candidate set. On the empty candidate set
  the call returns no vector of length 0: no batch is processed, \<open>torch.cat\<close> gets
  the empty list and raises.
\<close>

theorem get_info_score_no_candidates_counterexample:
  "snd (get_info_score (stub_interface prob_by_first text_by_first) [ex 9 90 ''q'']
          [] 2 (Some ''Output:'') ''left'') = Inl RuntimeError"
  by (simp add: get_info_score_def query_mask_part_of_def torch_cat_def Let_def)

text \<open>
  Claim C9. With an empty candidate set \<open>get_info_score\<close> never returns a score
  vector, whatever its other arguments: it ends in an error. When the baseline goes
  through (non-empty sequence, non-empty \<open>split_token\<close>, \<open>batch_size\<close> not
  negative), the only call made is the rendering of the baseline sequence, the list of
  per-batch results is still empty at the final \<open>torch.cat\<close>, and the error is the
  one that \<open>torch.cat\<close> raises.
\<close>

theorem get_info_score_empty_candidates:
  "(\<exists>e. snd (get_info_score iface S [] batch_size split_token construct_order) = Inl e) \<and>
   (S \<noteq> [] \<and> sep \<noteq> [] \<and> 0 \<le> batch_size \<longrightarrow>
      get_info_score iface S [] batch_size (Some sep) construct_order
        = ([Transfer_Prompts (Flat S) False], Inl RuntimeError))"
  by (auto simp: get_info_score_def Let_def torch_cat_def query_mask_part_of_def
      split: option.splits)

text \<open>An instance with a demonstration already chosen and \<open>right\<close> insertion.\<close>

theorem get_info_score_empty_candidates_witness:
  "get_info_score (stub_interface prob_by_first text_by_first) [ex 1 10 ''a'', ex 9 90 ''q'']
     [] 4 (Some ''Output:'') ''right''
   = ([Transfer_Prompts (Flat [ex 1 10 ''a'', ex 9 90 ''q'']) False], Inl RuntimeError)"
  using get_info_score_empty_candidates
    [of "stub_interface prob_by_first text_by_first" "[ex 1 10 ''a'', ex 9 90 ''q'']" 4
        "Some ''Output:''" "''right''" "''Output:''"]
  by simp

subsection \<open>Insertion order\<close>

text \<open>
  Claim C4. Every list of augmented sequences that \<open>get_info_score\<close> or
  \<open>get_cider_score\<close> hands to \<open>transfer_prompts\<close> was built with
  \<open>construct_order\<close> \<open>left\<close> or \<open>right\<close> from a non-empty chosen sequence, and
  each of its sequences ends in the query example, the last element of the chosen
  sequence: with \<open>left\<close> it is a candidate of the candidate set in front of the whole
  chosen sequence, with \<open>right\<close> the chosen sequence with a candidate put immediately
  before its trailing query element.
\<close>

theorem query_stays_last:
  assumes "Transfer_Prompts (Nested seqs) g \<in>
             set (fst (get_info_score iface S cs batch_size split_token construct_order)) \<or>
           Transfer_Prompts (Nested seqs) g \<in>
             set (fst (get_cider_score compute_cider iface' S cs batch_size' model_name path
                         construct_order gen_kwargs))"
    and "t \<in> set seqs"
  shows "S \<noteq> [] \<and> last t = last S \<and>
         (construct_order = ''left'' \<or> construct_order = ''right'') \<and>
         (construct_order = ''left'' \<longrightarrow> (\<exists>c \<in> snd ` set cs. t = c # S)) \<and>
         (construct_order = ''right'' \<longrightarrow> (\<exists>c \<in> snd ` set cs. t = butlast S @ [c, last S]))"
proof -
  from assms(1) have "S \<noteq> [] \<and>
      (\<exists>ds. set ds \<subseteq> snd ` set cs \<and> add_new_icd_seq_list construct_order S ds = Inr seqs)"
  proof
    assume "Transfer_Prompts (Nested seqs) g \<in>
             set (fst (get_info_score iface S cs batch_size split_token construct_order))"
    then show ?thesis by (rule get_info_score_events)
  next
    assume "Transfer_Prompts (Nested seqs) g \<in>
             set (fst (get_cider_score compute_cider iface' S cs batch_size' model_name path
                         construct_order gen_kwargs))"
    then show ?thesis by (rule get_cider_score_events)
  qed
  then obtain ds where S: "S \<noteq> []" and ds: "set ds \<subseteq> snd ` set cs"
    and sq: "add_new_icd_seq_list construct_order S ds = Inr seqs"
    by blast
  from add_new_icd_seq_list_member [OF sq S assms(2)] ds S show ?thesis
    by blast
qed

text \<open>
  A run of \<open>get_info_score\<close> with \<open>left\<close> and a run of \<open>get_cider_score\<close> with
  \<open>right\<close> on a sequence that already has a demonstration.
\<close>

theorem query_stays_last_witness:
  "Transfer_Prompts (Nested [[ex 0 10 ''a'', ex 9 90 ''q'']]) False \<in>
     set (fst (get_info_score (stub_interface prob_by_first text_by_first) [ex 9 90 ''q'']
                 [(0, ex 0 10 ''a'')] 1 (Some ''Output:'') ''left'')) \<and>
   last [ex 0 10 ''a'', ex 9 90 ''q''] = last [ex 9 90 ''q''] \<and>
   Transfer_Prompts (Nested [[ex 1 11 ''b'', ex 0 10 ''a'', ex 9 90 ''q'']]) True \<in>
     set (fst (get_cider_score stub_cider (stub_interface prob_by_first text_by_first)
                 [ex 1 11 ''b'', ex 9 90 ''q''] [(0, ex 0 10 ''a'')] 1 ''flamingo'' ''ann.json''
                 ''right'' (Some ()))) \<and>
   last [ex 1 11 ''b'', ex 0 10 ''a'', ex 9 90 ''q''] = last [ex 1 11 ''b'', ex 9 90 ''q'']"
proof -
  have m1: "Transfer_Prompts (Nested [[ex 0 10 ''a'', ex 9 90 ''q'']]) False \<in>
     set (fst (get_info_score (stub_interface prob_by_first text_by_first) [ex 9 90 ''q'']
                 [(0, ex 0 10 ''a'')] 1 (Some ''Output:'') ''left''))"
    by (simp add: get_info_score_def query_mask_part_of_def Let_def add_new_icd_seq_list_def
        tensor_sub_def stub_interface_def)
  have m2: "Transfer_Prompts (Nested [[ex 1 11 ''b'', ex 0 10 ''a'', ex 9 90 ''q'']]) True \<in>
     set (fst (get_cider_score stub_cider (stub_interface prob_by_first text_by_first)
                 [ex 1 11 ''b'', ex 9 90 ''q''] [(0, ex 0 10 ''a'')] 1 ''flamingo'' ''ann.json''
                 ''right'' (Some ())))"
    by (simp add: get_cider_score_def Let_def add_new_icd_seq_list_def stub_generated_text
        stub_generated_text_batch stub_cider_def text_by_first_def ex_def)
  have t1: "[ex 0 10 ''a'', ex 9 90 ''q''] \<in> set [[ex 0 10 ''a'', ex 9 90 ''q'']]" by simp
  have t2: "[ex 1 11 ''b'', ex 0 10 ''a'', ex 9 90 ''q'']
              \<in> set [[ex 1 11 ''b'', ex 0 10 ''a'', ex 9 90 ''q'']]" by simp
  from query_stays_last [OF disjI1 [OF m1] t1] query_stays_last [OF disjI2 [OF m2] t2] m1 m2
  show ?thesis by blast
qed

text \<open>
  Claim C5, as the code has it. The test of \<open>construct_order\<close> is inside the loop
  over the batches. When \<open>construct_order\<close> is neither \<open>left\<close> nor \<open>right\<close>, the
  candidate set is not empty, \<open>batch_size\<close> is at least 1 and the baseline of the
  function went through, both \<open>get_info_score\<close> and \<open>get_cider_score\<close> raise
  \<open>ValueError\<close> at the first batch: the log holds the baseline calls only, so no
  augmented sequence was built in any default order.
\<close>

theorem invalid_construct_order_raises:
  assumes "construct_order \<noteq> ''left''" and "construct_order \<noteq> ''right''"
    and "cs \<noteq> []" and "0 < batch_size" and "S \<noteq> []"
  shows "(sep \<noteq> [] \<longrightarrow>
            get_info_score iface S cs batch_size (Some sep) construct_order
              = ([Transfer_Prompts (Flat S) False], Inl ValueError)) \<and>
         (generated_text iface' (Flat S) kw \<noteq> [] \<and>
          compute_cider [(image_id (last S), Some (hd (generated_text iface' (Flat S) kw)))]
            path False (image_id (last S)) \<noteq> None \<longrightarrow>
            get_cider_score compute_cider iface' S cs batch_size model_name path construct_order
              (Some kw)
              = ([Transfer_Prompts (Flat S) True,
                  Compute_Cider [(image_id (last S),
                                  Some (hd (generated_text iface' (Flat S) kw)))]],
                 Inl ValueError))"
proof -
  obtain b batches where ch: "chunked (sort (map fst cs)) (nat batch_size) = b # batches"
    and b: "set b \<subseteq> set (sort (map fst cs))"
    using chunked_Cons_ex [OF sorted_keys_nonempty [OF assms(3)], of "nat batch_size"] assms(4)
    by auto
  from b have b': "set b \<subseteq> fst ` set cs" by simp
  have "get_cider_score compute_cider iface' S cs batch_size model_name path construct_order
              (Some kw)
              = ([Transfer_Prompts (Flat S) True,
                  Compute_Cider [(image_id (last S),
                                  Some (hd (generated_text iface' (Flat S) kw)))]],
                 Inl ValueError)"
    if "generated_text iface' (Flat S) kw \<noteq> []"
      and "compute_cider [(image_id (last S), Some (hd (generated_text iface' (Flat S) kw)))]
            path False (image_id (last S)) \<noteq> None"
    using that assms(4,5)
    by (auto simp add: get_cider_score_def Let_def ch cider_loop_invalid [OF assms(1,2) b']
        simp del: cider_loop.simps)
  then show ?thesis
    using get_info_score_invalid_order [OF assms(1,2,5) _ assms(4,3)] by blast
qed

theorem invalid_construct_order_raises_witness:
  "get_info_score (stub_interface prob_by_first text_by_first) [ex 9 90 ''q'']
     [(0, ex 0 10 ''a'')] 1 (Some ''Output:'') ''middle''
     = ([Transfer_Prompts (Flat [ex 9 90 ''q'']) False], Inl ValueError) \<and>
   get_cider_score stub_cider (stub_interface prob_by_first text_by_first) [ex 9 90 ''q'']
     [(0, ex 0 10 ''a'')] 1 ''flamingo'' ''ann.json'' ''middle'' (Some ())
     = ([Transfer_Prompts (Flat [ex 9 90 ''q'']) True, Compute_Cider [(90, Some ''q'')]],
        Inl ValueError)"
  using invalid_construct_order_raises [of "''middle''" "[(0, ex 0 10 ''a'')]" 1
      "[ex 9 90 ''q'']" "''Output:''" "stub_interface prob_by_first text_by_first"
      "stub_interface prob_by_first text_by_first" "()" stub_cider "''ann.json''" "''flamingo''"]
  by (simp add: stub_generated_text stub_cider_def text_by_first_def ex_def)

text \<open>
  Claim C5 as it is written covers every call with another \<open>construct_order\<close>.
  With an empty candidate set the loop body, and the test in it, is never reached:
  \<open>get_info_score\<close> with the order \<open>middle\<close> fails in \<open>torch.cat\<close>, not with
  the error of the configuration test.
\<close>

theorem invalid_construct_order_no_candidates_counterexample:
  "snd (get_info_score (stub_interface prob_by_first text_by_first) [ex 9 90 ''q'']
          [] 1 (Some ''Output:'') ''middle'') = Inl RuntimeError"
  by (simp add: get_info_score_def query_mask_part_of_def torch_cat_def Let_def)

subsection \<open>CIDEr score\<close>

text \<open>
  Claim C2, as the code has it. Let the chosen sequence be non-empty,
  \<open>construct_order\<close> one of \<open>left\<close> and \<open>right\<close>, \<open>batch_size\<close> at least 1,
  the candidate set a dict that stores every example under its own \<open>idx\<close> and in
  which no two candidates have the same \<open>image_id\<close>, the model generate sequence by
  sequence with texts \<open>G\<close>, and the metric give a score for the query and for every
  candidate image. Then \<open>get_cider_score\<close> returns the vector that has, for the
  candidate indices in ascending order, the CIDEr score that the metric, run once on
  the predictions of all candidates, gives to the image of the candidate, minus
  \<open>origin_cider_score\<close>, the score of the text generated from the chosen sequence
  alone; and the only prediction scored under the image of a candidate is the
  post-processed text generated with that candidate inserted.
\<close>

theorem get_cider_score_scores:
  assumes ord: "construct_order = ''left'' \<or> construct_order = ''right''"
    and S: "S \<noteq> []"
    and bs: "0 < batch_size"
    and G: "itemwise_generation iface kw G"
    and origin: "compute_cider [(image_id (last S), Some (G S))] path False (image_id (last S))
           = Some origin_cider_score"
    and ok: "candidate_set_ok cs"
    and img: "distinct (map (\<lambda>(k, d). image_id d) cs)"
    and present: "\<forall>k \<in> fst ` set cs.
           compute_cider (candidate_predictions G model_name construct_order S cs)
             path False (image_id (the (map_of cs k))) \<noteq> None"
  shows "snd (get_cider_score compute_cider iface S cs batch_size model_name path
                construct_order (Some kw)) =
         Inr (map (\<lambda>k. the (compute_cider
                               (candidate_predictions G model_name construct_order S cs)
                               path False (image_id (the (map_of cs k))))
                        - origin_cider_score)
                (sort (map fst cs))) \<and>
         (\<forall>k \<in> fst ` set cs.
            \<forall>p \<in> set (candidate_predictions G model_name construct_order S cs).
              fst p = image_id (the (map_of cs k)) \<longleftrightarrow>
              p = (image_id (the (map_of cs k)),
                   caption_postprocess
                     (G (icd_inserted construct_order S (the (map_of cs k)))) model_name))"
proof (intro conjI ballI)
  show "snd (get_cider_score compute_cider iface S cs batch_size model_name path
                construct_order (Some kw)) =
         Inr (map (\<lambda>k. the (compute_cider
                               (candidate_predictions G model_name construct_order S cs)
                               path False (image_id (the (map_of cs k))))
                        - origin_cider_score)
                (sort (map fst cs)))"
    using ord S bs G origin ok present by (rule get_cider_score_result)
next
  fix k p
  assume k: "k \<in> fst ` set cs"
    and p: "p \<in> set (candidate_predictions G model_name construct_order S cs)"
  from p obtain k' where k': "k' \<in> fst ` set cs"
    and pk: "p = (image_id (the (map_of cs k')),
                  caption_postprocess
                    (G (icd_inserted construct_order S (the (map_of cs k')))) model_name)"
    by (auto simp: candidate_predictions_def)
  show "fst p = image_id (the (map_of cs k)) \<longleftrightarrow>
        p = (image_id (the (map_of cs k)),
             caption_postprocess
               (G (icd_inserted construct_order S (the (map_of cs k)))) model_name)"
  proof
    assume "fst p = image_id (the (map_of cs k))"
    with pk have "image_id (the (map_of cs k')) = image_id (the (map_of cs k))" by simp
    from image_id_key [OF ok img k k' this] pk
    show "p = (image_id (the (map_of cs k)),
             caption_postprocess
               (G (icd_inserted construct_order S (the (map_of cs k)))) model_name)"
      by simp
  next
    assume "p = (image_id (the (map_of cs k)),
             caption_postprocess
               (G (icd_inserted construct_order S (the (map_of cs k)))) model_name)"
    then show "fst p = image_id (the (map_of cs k))" by simp
  qed
qed

text \<open>
  The scenario of the specification: the baseline caption scores 1.0 and the captions
  of the two candidates 1.5 and 0.8, which gives 0.5 and -0.2.
\<close>

theorem get_cider_score_scores_witness:
  "itemwise_generation (stub_interface prob_by_first text_by_first) () text_by_first \<and>
   candidate_set_ok [(1, ex 1 11 ''two cats''), (0, ex 0 10 ''a dog on a sofaOutput: junk'')] \<and>
   distinct (map (\<lambda>(k, d). image_id d)
               [(1 :: int, ex 1 11 ''two cats''), (0, ex 0 10 ''a dog on a sofaOutput: junk'')]) \<and>
   snd (get_cider_score stub_cider (stub_interface prob_by_first text_by_first)
          [ex 9 90 ''a red bus.'']
          [(1, ex 1 11 ''two cats''), (0, ex 0 10 ''a dog on a sofaOutput: junk'')]
          1 ''open_flamingo'' ''ann.json'' ''left'' (Some ()))
     = Inr [5 / 10, - 2 / 10]"
proof -
  have G: "itemwise_generation (stub_interface prob_by_first text_by_first) () text_by_first"
    by (rule stub_itemwise_generation)
  have ok: "candidate_set_ok
              [(1, ex 1 11 ''two cats''), (0, ex 0 10 ''a dog on a sofaOutput: junk'')]"
    by (simp add: candidate_set_ok_def ex_def)
  have img: "distinct (map (\<lambda>(k, d). image_id d)
               [(1 :: int, ex 1 11 ''two cats''), (0, ex 0 10 ''a dog on a sofaOutput: junk'')])"
    by (simp add: ex_def)
  have origin: "stub_cider [(image_id (last [ex 9 90 ''a red bus.'']),
                             Some (text_by_first [ex 9 90 ''a red bus.'']))]
                  ''ann.json'' False (image_id (last [ex 9 90 ''a red bus.''])) = Some 1"
    by (simp add: stub_cider_def text_by_first_def ex_def)
  have preds: "candidate_predictions text_by_first ''open_flamingo'' ''left''
                 [ex 9 90 ''a red bus.'']
                 [(1, ex 1 11 ''two cats''), (0, ex 0 10 ''a dog on a sofaOutput: junk'')]
               = [(10, Some ''a dog on a sofa''), (11, Some ''two cats'')]"
    by (simp add: candidate_predictions_def icd_inserted_def text_by_first_def ex_def
        caption_postprocess_def remove_char_def)
  have present: "\<forall>k \<in> fst ` set [(1, ex 1 11 ''two cats''),
                                    (0, ex 0 10 ''a dog on a sofaOutput: junk'')].
      stub_cider (candidate_predictions text_by_first ''open_flamingo'' ''left''
                    [ex 9 90 ''a red bus.'']
                    [(1, ex 1 11 ''two cats''), (0, ex 0 10 ''a dog on a sofaOutput: junk'')])
        ''ann.json'' False
        (image_id (the (map_of [(1, ex 1 11 ''two cats''),
                                (0, ex 0 10 ''a dog on a sofaOutput: junk'')] k))) \<noteq> None"
    unfolding preds by (simp add: stub_cider_def ex_def del: not_None_eq)
  have "snd (get_cider_score stub_cider (stub_interface prob_by_first text_by_first)
          [ex 9 90 ''a red bus.'']
          [(1, ex 1 11 ''two cats''), (0, ex 0 10 ''a dog on a sofaOutput: junk'')]
          1 ''open_flamingo'' ''ann.json'' ''left'' (Some ()))
     = Inr [5 / 10, - 2 / 10]"
    using get_cider_score_scores [where compute_cider = stub_cider and G = text_by_first
        and S = "[ex 9 90 ''a red bus.'']" and construct_order = "''left''" and batch_size = 1
        and model_name = "''open_flamingo''" and path = "''ann.json''",
        OF _ _ _ G origin ok img present, THEN conjunct1, unfolded preds]
    by (simp add: stub_cider_def ex_def)
  with G ok img show ?thesis by blast
qed

text \<open>
  Claim C2 as it is written covers every candidate set and every interface. With
  the candidates 3 and 5 on the same image 4, the entry of candidate 5 is the score
  of the caption of candidate 3 (0.8) minus the baseline (1.0); the caption generated
  with candidate 5 inserted scores 1.5.
\<close>

theorem get_cider_score_shared_image_counterexample:
  "snd (get_cider_score stub_cider (stub_interface prob_by_first text_by_first)
          [ex 9 90 ''a red bus.'']
          [(3, ex 3 4 ''two cats''), (5, ex 5 4 ''a dog on a sofa'')]
          2 ''open_flamingo'' ''ann.json'' ''left'' (Some ()))
     = Inr [- 2 / 10, - 2 / 10] \<and>
   stub_cider [(90, Some (text_by_first [ex 9 90 ''a red bus.'']))] ''ann.json'' False 90
     = Some 1 \<and>
   stub_cider [(4, caption_postprocess
                     (text_by_first [ex 5 4 ''a dog on a sofa'', ex 9 90 ''a red bus.''])
                     ''open_flamingo'')] ''ann.json'' False 4
     = Some (15 / 10)"
  by (simp add: get_cider_score_def Let_def add_new_icd_seq_list_def stub_generated_text
      stub_generated_text_batch stub_cider_def text_by_first_def ex_def
      caption_postprocess_def remove_char_def)

text \<open>
  Claim C3, as the code has it. Let the model generate sequence by sequence. Then for any two batch sizes
  of at least 1 \<open>get_cider_score\<close> returns the same result. Moreover, on a
  non-empty chosen sequence with a valid \<open>construct_order\<close>, a well-formed candidate
  set and a baseline score, the log of the call is: the baseline rendering, the
  baseline \<open>compute_cider\<close> on the single baseline prediction, one rendering per
  batch, and last one \<open>compute_cider\<close> on the predictions of all candidates.
  So \<open>compute_cider\<close> is called exactly twice whatever the batch size: once for
  the baseline, and once, after all batches, on the whole accumulated prediction set.
\<close>

theorem get_cider_score_batch_invariant:
  assumes "itemwise_generation iface kw G" and "0 < b1" and "0 < b2"
  shows "snd (get_cider_score compute_cider iface S cs b1 model_name path construct_order
                (Some kw))
       = snd (get_cider_score compute_cider iface S cs b2 model_name path construct_order
                (Some kw)) \<and>
         ((construct_order = ''left'' \<or> construct_order = ''right'') \<and> S \<noteq> [] \<and>
          candidate_set_ok cs \<and>
          compute_cider [(image_id (last S), Some (G S))] path False (image_id (last S)) \<noteq> None
          \<longrightarrow>
            fst (get_cider_score compute_cider iface S cs b1 model_name path construct_order
                   (Some kw))
              = [Transfer_Prompts (Flat S) True,
                 Compute_Cider [(image_id (last S), Some (G S))]]
                @ map (\<lambda>b. Transfer_Prompts
                         (Nested (map (\<lambda>k. icd_inserted construct_order S (the (map_of cs k))) b))
                         True) (chunked (sort (map fst cs)) (nat b1))
                @ [Compute_Cider (candidate_predictions G model_name construct_order S cs)] \<and>
            filter is_Compute_Cider
              (fst (get_cider_score compute_cider iface S cs b1 model_name path construct_order
                      (Some kw)))
              = [Compute_Cider [(image_id (last S), Some (G S))],
                 Compute_Cider (candidate_predictions G model_name construct_order S cs)])"
proof
  show "snd (get_cider_score compute_cider iface S cs b1 model_name path construct_order
                (Some kw))
       = snd (get_cider_score compute_cider iface S cs b2 model_name path construct_order
                (Some kw))"
  proof (cases "S = []")
    case True
    then show ?thesis by (simp add: get_cider_score_snd)
  next
    case False
    have n: "0 < nat b1" "0 < nat b2" using assms(2,3) by simp_all
    have neg: "\<not> b1 < 0" "\<not> b2 < 0" using assms(2,3) by simp_all
    show ?thesis
      unfolding get_cider_score_snd
      by (simp only: neg if_False
          cider_loop_batch_invariant [OF assms(1) n False, of cs construct_order])
  qed
next
  show "(construct_order = ''left'' \<or> construct_order = ''right'') \<and> S \<noteq> [] \<and>
          candidate_set_ok cs \<and>
          compute_cider [(image_id (last S), Some (G S))] path False (image_id (last S)) \<noteq> None
          \<longrightarrow>
            fst (get_cider_score compute_cider iface S cs b1 model_name path construct_order
                   (Some kw))
              = [Transfer_Prompts (Flat S) True,
                 Compute_Cider [(image_id (last S), Some (G S))]]
                @ map (\<lambda>b. Transfer_Prompts
                         (Nested (map (\<lambda>k. icd_inserted construct_order S (the (map_of cs k))) b))
                         True) (chunked (sort (map fst cs)) (nat b1))
                @ [Compute_Cider (candidate_predictions G model_name construct_order S cs)] \<and>
            filter is_Compute_Cider
              (fst (get_cider_score compute_cider iface S cs b1 model_name path construct_order
                      (Some kw)))
              = [Compute_Cider [(image_id (last S), Some (G S))],
                 Compute_Cider (candidate_predictions G model_name construct_order S cs)]"
  proof (intro impI, elim conjE)
    assume ord: "construct_order = ''left'' \<or> construct_order = ''right''"
      and S: "S \<noteq> []" and ok: "candidate_set_ok cs"
      and "compute_cider [(image_id (last S), Some (G S))] path False (image_id (last S)) \<noteq> None"
    then obtain origin where origin:
      "compute_cider [(image_id (last S), Some (G S))] path False (image_id (last S))
         = Some origin" by auto
    have run: "fst (get_cider_score compute_cider iface S cs b1 model_name path construct_order
                   (Some kw))
              = [Transfer_Prompts (Flat S) True,
                 Compute_Cider [(image_id (last S), Some (G S))]]
                @ map (\<lambda>b. Transfer_Prompts
                         (Nested (map (\<lambda>k. icd_inserted construct_order S (the (map_of cs k))) b))
                         True) (chunked (sort (map fst cs)) (nat b1))
                @ [Compute_Cider (candidate_predictions G model_name construct_order S cs)]"
      by (simp only: get_cider_score_run
          [where G = G and S = S and compute_cider = compute_cider,
           OF ord S assms(2,1) origin ok] fst_conv)
    show "fst (get_cider_score compute_cider iface S cs b1 model_name path construct_order
                   (Some kw))
              = [Transfer_Prompts (Flat S) True,
                 Compute_Cider [(image_id (last S), Some (G S))]]
                @ map (\<lambda>b. Transfer_Prompts
                         (Nested (map (\<lambda>k. icd_inserted construct_order S (the (map_of cs k))) b))
                         True) (chunked (sort (map fst cs)) (nat b1))
                @ [Compute_Cider (candidate_predictions G model_name construct_order S cs)] \<and>
            filter is_Compute_Cider
              (fst (get_cider_score compute_cider iface S cs b1 model_name path construct_order
                      (Some kw)))
              = [Compute_Cider [(image_id (last S), Some (G S))],
                 Compute_Cider (candidate_predictions G model_name construct_order S cs)]"
      unfolding run by (simp add: comp_def)
  qed
qed

text \<open>Three candidates scored in batches of one and of two.\<close>

theorem get_cider_score_batch_invariant_witness:
  "itemwise_generation (stub_interface prob_by_first text_by_first) () text_by_first \<and>
   snd (get_cider_score stub_cider (stub_interface prob_by_first text_by_first)
          [ex 9 90 ''a red bus.'']
          [(1, ex 1 11 ''two cats''), (0, ex 0 10 ''a dog on a sofaOutput: junk''),
           (2, ex 2 12 ''a tree'')]
          1 ''open_flamingo'' ''ann.json'' ''right'' (Some ()))
   = snd (get_cider_score stub_cider (stub_interface prob_by_first text_by_first)
          [ex 9 90 ''a red bus.'']
          [(1, ex 1 11 ''two cats''), (0, ex 0 10 ''a dog on a sofaOutput: junk''),
           (2, ex 2 12 ''a tree'')]
          2 ''open_flamingo'' ''ann.json'' ''right'' (Some ())) \<and>
   filter is_Compute_Cider
     (fst (get_cider_score stub_cider (stub_interface prob_by_first text_by_first)
          [ex 9 90 ''a red bus.'']
          [(1, ex 1 11 ''two cats''), (0, ex 0 10 ''a dog on a sofaOutput: junk''),
           (2, ex 2 12 ''a tree'')]
          1 ''open_flamingo'' ''ann.json'' ''right'' (Some ())))
   = [Compute_Cider [(90, Some ''a red bus.'')],
      Compute_Cider [(10, Some ''a dog on a sofa''), (11, Some ''two cats''),
                     (12, Some ''a tree'')]]"
proof -
  have G: "itemwise_generation (stub_interface prob_by_first text_by_first) () text_by_first"
    by (rule stub_itemwise_generation)
  have ok: "candidate_set_ok
              [(1, ex 1 11 ''two cats''), (0, ex 0 10 ''a dog on a sofaOutput: junk''),
               (2, ex 2 12 ''a tree'')]"
    by (simp add: candidate_set_ok_def ex_def)
  have origin: "stub_cider [(image_id (last [ex 9 90 ''a red bus.'']),
                             Some (text_by_first [ex 9 90 ''a red bus.'']))]
                  ''ann.json'' False (image_id (last [ex 9 90 ''a red bus.''])) \<noteq> None"
    by (simp add: stub_cider_def text_by_first_def ex_def del: not_None_eq)
  have preds: "candidate_predictions text_by_first ''open_flamingo'' ''right''
                 [ex 9 90 ''a red bus.'']
                 [(1, ex 1 11 ''two cats''), (0, ex 0 10 ''a dog on a sofaOutput: junk''),
                  (2, ex 2 12 ''a tree'')]
               = [(10, Some ''a dog on a sofa''), (11, Some ''two cats''),
                  (12, Some ''a tree'')]"
    by (simp add: candidate_predictions_def icd_inserted_def text_by_first_def ex_def
        caption_postprocess_def remove_char_def)
  have q: "[(image_id (last [ex 9 90 ''a red bus.'']),
             Some (text_by_first [ex 9 90 ''a red bus.'']))] = [(90, Some ''a red bus.'')]"
    by (simp add: text_by_first_def ex_def)
  from get_cider_score_batch_invariant [where compute_cider = stub_cider and G = text_by_first
      and S = "[ex 9 90 ''a red bus.'']" and construct_order = "''right''" and ?b1.0 = 1
      and ?b2.0 = 2 and model_name = "''open_flamingo''" and path = "''ann.json''"
      and cs = "[(1, ex 1 11 ''two cats''), (0, ex 0 10 ''a dog on a sofaOutput: junk''),
                 (2, ex 2 12 ''a tree'')]", OF G]
    ok origin G
  show ?thesis
    unfolding preds q by simp
qed

text \<open>
  Claim C3 as it is written covers every interface. With an interface whose texts
  depend on the batch the final scores change with the batch size: two candidates
  scored one by one get 0.1 each, scored in one batch of two 0.2 each.
\<close>

theorem get_cider_score_batch_dependent_counterexample:
  "snd (get_cider_score stub_cider batch_dependent_interface [ex 9 90 ''q'']
          [(0, ex 0 10 ''a''), (1, ex 1 11 ''b'')]
          1 ''open_flamingo'' ''ann.json'' ''left'' (Some ()))
     = Inr [1 / 10, 1 / 10] \<and>
   snd (get_cider_score stub_cider batch_dependent_interface [ex 9 90 ''q'']
          [(0, ex 0 10 ''a''), (1, ex 1 11 ''b'')]
          2 ''open_flamingo'' ''ann.json'' ''left'' (Some ()))
     = Inr [2 / 10, 2 / 10]"
  by (simp add: get_cider_score_def Let_def add_new_icd_seq_list_def generated_text_def
      batch_dependent_interface_def stub_interface_def stub_cider_def ex_def
      caption_postprocess_def remove_char_def char_of_97)

text \<open>
  Claim C10, as the code has it. The final scores are looked up by \<open>image_id\<close>:
  under the hypotheses of C2, two candidates with the same \<open>image_id\<close> get the same
  entry, the score that \<open>compute_cider\<close> gives to that image on the accumulated
  predictions, minus the baseline. The accumulated prediction dict is keyed by
  \<open>idx\<close>, so it keeps the predictions of both candidates, and both are handed to
  \<open>compute_cider\<close>; which of them the score of the image comes from is decided by
  \<open>compute_cider\<close>.
\<close>

theorem shared_image_id_scores:
  assumes ord: "construct_order = ''left'' \<or> construct_order = ''right''"
    and S: "S \<noteq> []"
    and bs: "0 < batch_size"
    and G: "itemwise_generation iface kw G"
    and origin: "compute_cider [(image_id (last S), Some (G S))] path False (image_id (last S))
           = Some origin_cider_score"
    and ok: "candidate_set_ok cs"
    and present: "\<forall>k \<in> fst ` set cs.
           compute_cider (candidate_predictions G model_name construct_order S cs)
             path False (image_id (the (map_of cs k))) \<noteq> None"
    and k1: "k1 \<in> fst ` set cs" and k2: "k2 \<in> fst ` set cs"
    and same: "image_id (the (map_of cs k1)) = image_id (the (map_of cs k2))"
  shows "\<exists>preds v.
           last (fst (get_cider_score compute_cider iface S cs batch_size model_name path
                        construct_order (Some kw))) = Compute_Cider preds \<and>
           length preds = length cs \<and>
           (image_id (the (map_of cs k1)),
            caption_postprocess (G (icd_inserted construct_order S (the (map_of cs k1))))
              model_name) \<in> set preds \<and>
           (image_id (the (map_of cs k2)),
            caption_postprocess (G (icd_inserted construct_order S (the (map_of cs k2))))
              model_name) \<in> set preds \<and>
           snd (get_cider_score compute_cider iface S cs batch_size model_name path
                  construct_order (Some kw)) = Inr v \<and>
           length v = length cs \<and>
           (\<forall>i < length cs. \<forall>j < length cs.
              sort (map fst cs) ! i = k1 \<and> sort (map fst cs) ! j = k2 \<longrightarrow>
                v ! i = v ! j \<and>
                v ! i = the (compute_cider preds path False (image_id (the (map_of cs k1))))
                          - origin_cider_score)"
proof -
  let ?preds = "candidate_predictions G model_name construct_order S cs"
  let ?keys = "sort (map fst cs)"
  let ?f = "\<lambda>k. the (compute_cider ?preds path False (image_id (the (map_of cs k))))
                 - origin_cider_score"
  have run: "fst (get_cider_score compute_cider iface S cs batch_size model_name path
                    construct_order (Some kw))
              = [Transfer_Prompts (Flat S) True,
                 Compute_Cider [(image_id (last S), Some (G S))]]
                @ map (\<lambda>b. Transfer_Prompts
                         (Nested (map (\<lambda>k. icd_inserted construct_order S (the (map_of cs k))) b))
                         True) (chunked ?keys (nat batch_size))
                @ [Compute_Cider ?preds]"
    by (simp only: get_cider_score_run
        [where G = G and S = S and compute_cider = compute_cider,
         OF ord S bs G origin ok] fst_conv)
  have l: "last (fst (get_cider_score compute_cider iface S cs batch_size model_name path
                        construct_order (Some kw))) = Compute_Cider ?preds"
    unfolding run by simp
  have res: "snd (get_cider_score compute_cider iface S cs batch_size model_name path
                construct_order (Some kw)) = Inr (map ?f ?keys)"
    using ord S bs G origin ok present by (rule get_cider_score_result)
  have len: "length ?preds = length cs"
    by (simp add: candidate_predictions_def)
  have m1: "(image_id (the (map_of cs k1)),
            caption_postprocess (G (icd_inserted construct_order S (the (map_of cs k1))))
              model_name) \<in> set ?preds"
    using k1 by (auto simp: candidate_predictions_def)
  have m2: "(image_id (the (map_of cs k2)),
            caption_postprocess (G (icd_inserted construct_order S (the (map_of cs k2))))
              model_name) \<in> set ?preds"
    using k2 by (auto simp: candidate_predictions_def)
  have eq: "\<forall>i < length cs. \<forall>j < length cs.
              ?keys ! i = k1 \<and> ?keys ! j = k2 \<longrightarrow>
                map ?f ?keys ! i = map ?f ?keys ! j \<and>
                map ?f ?keys ! i = the (compute_cider ?preds path False
                                          (image_id (the (map_of cs k1))))
                          - origin_cider_score"
    using same by (auto simp: nth_map)
  have lv: "length (map ?f ?keys) = length cs" by simp
  from l len m1 m2 res lv eq show ?thesis by blast
qed

theorem shared_image_id_scores_witness:
  "candidate_set_ok [(1, ex 1 7 ''two cats''), (2, ex 2 7 ''a dog on a sofa'')] \<and>
   image_id (the (map_of [(1, ex 1 7 ''two cats''), (2, ex 2 7 ''a dog on a sofa'')] 1))
     = image_id (the (map_of [(1, ex 1 7 ''two cats''), (2, ex 2 7 ''a dog on a sofa'')] 2)) \<and>
   (\<exists>preds v.
      last (fst (get_cider_score stub_cider (stub_interface prob_by_first text_by_first)
                   [ex 9 90 ''a red bus.'']
                   [(1, ex 1 7 ''two cats''), (2, ex 2 7 ''a dog on a sofa'')]
                   2 ''open_flamingo'' ''ann.json'' ''left'' (Some ()))) = Compute_Cider preds \<and>
      (7, Some ''two cats'') \<in> set preds \<and> (7, Some ''a dog on a sofa'') \<in> set preds \<and>
      snd (get_cider_score stub_cider (stub_interface prob_by_first text_by_first)
             [ex 9 90 ''a red bus.'']
             [(1, ex 1 7 ''two cats''), (2, ex 2 7 ''a dog on a sofa'')]
             2 ''open_flamingo'' ''ann.json'' ''left'' (Some ())) = Inr v \<and>
      length v = 2 \<and> v ! 0 = v ! 1)"
proof -
  let ?cs = "[(1 :: int, ex 1 7 ''two cats''), (2, ex 2 7 ''a dog on a sofa'')]"
  have G: "itemwise_generation (stub_interface prob_by_first text_by_first) () text_by_first"
    by (rule stub_itemwise_generation)
  have ok: "candidate_set_ok ?cs"
    by (simp add: candidate_set_ok_def ex_def)
  have origin: "stub_cider [(image_id (last [ex 9 90 ''a red bus.'']),
                             Some (text_by_first [ex 9 90 ''a red bus.'']))]
                  ''ann.json'' False (image_id (last [ex 9 90 ''a red bus.''])) = Some 1"
    by (simp add: stub_cider_def text_by_first_def ex_def)
  have preds: "candidate_predictions text_by_first ''open_flamingo'' ''left''
                 [ex 9 90 ''a red bus.''] ?cs
               = [(7, Some ''two cats''), (7, Some ''a dog on a sofa'')]"
    by (simp add: candidate_predictions_def icd_inserted_def text_by_first_def ex_def
        caption_postprocess_def remove_char_def)
  have present: "\<forall>k \<in> fst ` set ?cs.
      stub_cider (candidate_predictions text_by_first ''open_flamingo'' ''left''
                    [ex 9 90 ''a red bus.''] ?cs)
        ''ann.json'' False (image_id (the (map_of ?cs k))) \<noteq> None"
    unfolding preds by (simp add: stub_cider_def ex_def del: not_None_eq)
  have same: "image_id (the (map_of ?cs 1)) = image_id (the (map_of ?cs 2))"
    by (simp add: ex_def)
  have k1: "1 \<in> fst ` set ?cs" and k2: "2 \<in> fst ` set ?cs" by simp_all
  have c1: "(image_id (the (map_of ?cs 1)),
             caption_postprocess
               (text_by_first (icd_inserted ''left'' [ex 9 90 ''a red bus.'']
                                 (the (map_of ?cs 1)))) ''open_flamingo'')
            = (7, Some ''two cats'')"
    by (simp add: icd_inserted_def text_by_first_def ex_def caption_postprocess_def
        remove_char_def)
  have c2: "(image_id (the (map_of ?cs 2)),
             caption_postprocess
               (text_by_first (icd_inserted ''left'' [ex 9 90 ''a red bus.'']
                                 (the (map_of ?cs 2)))) ''open_flamingo'')
            = (7, Some ''a dog on a sofa'')"
    by (simp add: icd_inserted_def text_by_first_def ex_def caption_postprocess_def
        remove_char_def)
  have keys: "sort (map fst ?cs) ! 0 = 1 \<and> sort (map fst ?cs) ! 1 = 2" by simp
  from shared_image_id_scores [where compute_cider = stub_cider and G = text_by_first
      and S = "[ex 9 90 ''a red bus.'']" and construct_order = "''left''" and batch_size = 2
      and model_name = "''open_flamingo''" and path = "''ann.json''" and cs = ?cs
      and ?k1.0 = 1 and ?k2.0 = 2, OF _ _ _ G origin ok present k1 k2 same, unfolded c1 c2]
  obtain preds v where
    "last (fst (get_cider_score stub_cider (stub_interface prob_by_first text_by_first)
                   [ex 9 90 ''a red bus.''] ?cs
                   2 ''open_flamingo'' ''ann.json'' ''left'' (Some ()))) = Compute_Cider preds"
    "(7, Some ''two cats'') \<in> set preds" "(7, Some ''a dog on a sofa'') \<in> set preds"
    "snd (get_cider_score stub_cider (stub_interface prob_by_first text_by_first)
             [ex 9 90 ''a red bus.''] ?cs
             2 ''open_flamingo'' ''ann.json'' ''left'' (Some ())) = Inr v"
    "length v = length ?cs"
    "\<forall>i < length ?cs. \<forall>j < length ?cs.
        sort (map fst ?cs) ! i = 1 \<and> sort (map fst ?cs) ! j = 2 \<longrightarrow> v ! i = v ! j"
    by auto
  moreover from this(6) keys have "v ! 0 = v ! 1" by simp
  ultimately show ?thesis using ok same by auto
qed

text \<open>
  Claim C10 as it is written says that the entry of the candidate with the larger
  index overwrites the other's in the accumulated prediction map, and that the common
  score is derived from that prediction. With the candidates 1 and 2 on image 7, the
  predictions handed to \<open>compute_cider\<close> hold the captions of both; with a metric
  that scores the first prediction of an image, both entries are the score of the
  caption of candidate 1 (0.8, minus the baseline 1.0), not that of candidate 2 (1.5).
\<close>

theorem shared_image_id_counterexample:
  "last (fst (get_cider_score stub_cider (stub_interface prob_by_first text_by_first)
                [ex 9 90 ''a red bus.'']
                [(1, ex 1 7 ''two cats''), (2, ex 2 7 ''a dog on a sofa'')]
                1 ''open_flamingo'' ''ann.json'' ''left'' (Some ())))
     = Compute_Cider [(7, Some ''two cats''), (7, Some ''a dog on a sofa'')] \<and>
   snd (get_cider_score stub_cider (stub_interface prob_by_first text_by_first)
          [ex 9 90 ''a red bus.'']
          [(1, ex 1 7 ''two cats''), (2, ex 2 7 ''a dog on a sofa'')]
          1 ''open_flamingo'' ''ann.json'' ''left'' (Some ()))
     = Inr [- 2 / 10, - 2 / 10]"
  by (simp add: shared_image_id_run)

section \<open>Properties of the random candidate sampler\<close>

lemma redraw_accept:
  "a \<notin> set cur \<Longrightarrow> redraw draws a cur i = Some (cur, i)"
  by (subst redraw.simps) simp

lemma redraw_reject:
  "a \<in> set cur \<Longrightarrow> redraw draws a cur i = redraw draws a (draws i) (Suc i)"
  by (subst redraw.simps) simp

lemma redraw_first_free:
  assumes "a \<notin> set (draws (i + n))" and "\<forall>m < n. a \<in> set (draws (i + m))"
  shows "redraw draws a (draws i) (Suc i) = Some (draws (i + n), Suc (i + n))"
  using assms
proof (induction n arbitrary: i)
  case 0
  then show ?case by (simp add: redraw_accept)
next
  case (Suc n)
  from Suc.prems(2) have here: "a \<in> set (draws i)" by force
  have "a \<notin> set (draws (Suc i + n))" using Suc.prems(1) by simp
  moreover have "\<forall>m < n. a \<in> set (draws (Suc i + m))"
  proof (intro allI impI)
    fix m assume "m < n"
    then have "Suc m < Suc n" by simp
    with Suc.prems(2) have "a \<in> set (draws (i + Suc m))" by blast
    then show "a \<in> set (draws (Suc i + m))" by simp
  qed
  ultimately have "redraw draws a (draws (Suc i)) (Suc (Suc i))
                   = Some (draws (Suc i + n), Suc (Suc i + n))"
    by (rule Suc.IH)
  with here show ?case by (simp add: redraw_reject)
qed

lemma redraw_never_free:
  assumes "redraw draws a cur i = Some y"
  shows "\<not> (a \<in> set cur \<and> (\<forall>m. a \<in> set (draws (i + m))))"
proof (rule redraw.raw_induct
    [where P = "\<lambda>draws a cur i y. \<not> (a \<in> set cur \<and> (\<forall>m. a \<in> set (draws (i + m))))",
     OF _ assms])
  fix redraw' :: "(nat \<Rightarrow> int list) \<Rightarrow> int \<Rightarrow> int list \<Rightarrow> nat \<Rightarrow> (int list \<times> nat) option"
    and draws a cur i y
  assume IH: "\<And>draws a cur i y. redraw' draws a cur i = Some y \<Longrightarrow>
                \<not> (a \<in> set cur \<and> (\<forall>m. a \<in> set (draws (i + m))))"
    and body: "(if a \<in> set cur then redraw' draws a (draws i) (Suc i) else Some (cur, i))
               = Some y"
  show "\<not> (a \<in> set cur \<and> (\<forall>m. a \<in> set (draws (i + m))))"
  proof
    assume bad: "a \<in> set cur \<and> (\<forall>m. a \<in> set (draws (i + m)))"
    with body have r: "redraw' draws a (draws i) (Suc i) = Some y" by simp
    from bad have "a \<in> set (draws i)" by (metis add.right_neutral)
    moreover from bad have "\<forall>m. a \<in> set (draws (Suc i + m))"
      by (metis add_Suc_shift)
    ultimately show False using IH [OF r] by blast
  qed
qed

lemma redraw_result:
  assumes "redraw draws a (draws i) (Suc i) = Some (cl, i')"
  shows "\<exists>n. cl = draws (i + n) \<and> i' = Suc (i + n) \<and> a \<notin> set (draws (i + n)) \<and>
             (\<forall>m < n. a \<in> set (draws (i + m)))"
proof -
  have "\<exists>m. a \<notin> set (draws (i + m))"
  proof (rule ccontr)
    assume "\<not> (\<exists>m. a \<notin> set (draws (i + m)))"
    then have all: "\<forall>m. a \<in> set (draws (i + m))" by simp
    then have "a \<in> set (draws i)" by (metis add.right_neutral)
    moreover from all have "\<forall>m. a \<in> set (draws (Suc i + m))" by (metis add_Suc_shift)
    ultimately show False using redraw_never_free [OF assms] by blast
  qed
  then obtain n where n: "a \<notin> set (draws (i + n))"
    and least: "\<forall>m < n. a \<in> set (draws (i + m))"
    using exists_least_iff [of "\<lambda>m. a \<notin> set (draws (i + m))"] by auto
  from redraw_first_free [OF n least] assms n least show ?thesis by auto
qed

lemma valid_sample_bounds:
  assumes "valid_sample n k xs"
  shows "0 \<le> k \<and> k \<le> int n"
proof -
  from assms have len: "int (length xs) = k" and d: "distinct xs"
    and r: "set xs \<subseteq> {0..<int n}"
    by (auto simp: valid_sample_def list_all_iff)
  from d have "length xs = card (set xs)" by (simp add: distinct_card)
  also from r have "\<dots> \<le> card {0..<int n}" by (intro card_mono) simp_all
  also have "\<dots> = n" by simp
  finally show ?thesis using len by auto
qed

lemma sample_loop_result:
  assumes "sample_loop draws n k anchors d i = Some (Inr res)"
  shows "(a \<in> set anchors \<longrightarrow>
            (\<exists>j n0. map_of res a = Some (draws (j + n0)) \<and> a \<notin> set (draws (j + n0)) \<and>
                     (\<forall>m < n0. a \<in> set (draws (j + m))))) \<and>
         (a \<notin> set anchors \<longrightarrow> map_of res a = map_of d a)"
  using assms
proof (induction anchors arbitrary: d i)
  case Nil
  then show ?case by simp
next
  case (Cons s rest)
  from Cons.prems have k: "\<not> (k < 0 \<or> int n < k)"
    by (auto split: if_splits)
  with Cons.prems obtain cl i' where
    rd: "redraw draws s (draws i) (Suc i) = Some (cl, i')"
    and rest: "sample_loop draws n k rest (AList.update s cl d) i' = Some (Inr res)"
    by (auto split: option.splits)
  from redraw_result [OF rd] obtain n0 where
    cl: "cl = draws (i + n0)" and free: "s \<notin> set (draws (i + n0))"
    and rej: "\<forall>m < n0. s \<in> set (draws (i + m))"
    by blast
  note IH = Cons.IH [OF rest]
  show ?case
  proof (cases "a \<in> set rest")
    case True
    with IH show ?thesis by simp
  next
    case False
    with IH have m: "map_of res a = map_of (AList.update s cl d) a" by simp
    show ?thesis
    proof (cases "a = s")
      case True
      with m have "map_of res a = Some (draws (i + n0))"
        by (simp add: update_conv' cl)
      with True free rej show ?thesis by auto
    next
      case ne: False
      with m have "map_of res a = map_of d a" by (simp add: update_conv')
      with ne False show ?thesis by simp
    qed
  qed
qed

lemma sample_loop_returns:
  assumes "0 \<le> k" and "k \<le> int n"
    and "\<forall>a \<in> set anchors. \<forall>i. \<exists>m. a \<notin> set (draws (i + m))"
  shows "\<exists>res. sample_loop draws n k anchors d i = Some (Inr res)"
  using assms(3)
proof (induction anchors arbitrary: d i)
  case Nil
  then show ?case by simp
next
  case (Cons s rest)
  from Cons.prems have "\<exists>m. s \<notin> set (draws (i + m))" by simp
  then obtain n0 where free: "s \<notin> set (draws (i + n0))"
    and rej: "\<forall>m < n0. s \<in> set (draws (i + m))"
    using exists_least_iff [of "\<lambda>m. s \<notin> set (draws (i + m))"] by auto
  have rd: "redraw draws s (draws i) (Suc i) = Some (draws (i + n0), Suc (i + n0))"
    using free rej by (rule redraw_first_free)
  from Cons.prems have "\<forall>a \<in> set rest. \<forall>i. \<exists>m. a \<notin> set (draws (i + m))" by simp
  from Cons.IH [OF this]
  obtain res where "sample_loop draws n k rest (AList.update s (draws (i + n0)) d)
                      (Suc (i + n0)) = Some (Inr res)" by blast
  with assms(1,2) rd show ?case by simp
qed

text \<open>
  Claim C6. Let every call of \<open>random.sample\<close> return \<open>candidate_num\<close> distinct
  indices of the range from 0 to \<open>len(train_ds)\<close>. If \<open>sample\<close> returns, then for
  every anchor \<open>a\<close> of the anchor set the candidate list stored for \<open>a\<close> does not
  contain \<open>a\<close>, has exactly \<open>candidate_num\<close> elements, all distinct and all in the
  range; the list is one whole draw, and the draws made for the anchor before it were
  rejected because each contained \<open>a\<close>. And \<open>sample\<close> does return whenever, for
  every anchor, a draw without the anchor comes up from any point of the sequence of
  draws on.
\<close>

theorem sample_candidates:
  assumes "\<forall>i. valid_sample (length train_ds) (candidate_num self) (draws i)"
  shows "(sample self draws anchor_set train_ds = Some (Inr res) \<and> a \<in> set anchor_set \<longrightarrow>
            (\<exists>cl. map_of res a = Some cl \<and> a \<notin> set cl \<and>
                   int (length cl) = candidate_num self \<and> distinct cl \<and>
                   (\<forall>x \<in> set cl. 0 \<le> x \<and> x < int (length train_ds)) \<and>
                   (\<exists>j n0. cl = draws (j + n0) \<and> (\<forall>m < n0. a \<in> set (draws (j + m)))))) \<and>
         ((\<forall>a \<in> set anchor_set. \<forall>i. \<exists>m. a \<notin> set (draws (i + m))) \<longrightarrow>
            (\<exists>res. sample self draws anchor_set train_ds = Some (Inr res)))"
proof (intro conjI impI)
  assume h: "sample self draws anchor_set train_ds = Some (Inr res) \<and> a \<in> set anchor_set"
  then have run: "sample_loop draws (length train_ds) (candidate_num self) anchor_set [] 0
                  = Some (Inr res)"
    by (simp add: sample_def)
  from sample_loop_result [OF run, of a] h obtain j n0 where
    m: "map_of res a = Some (draws (j + n0))" and free: "a \<notin> set (draws (j + n0))"
    and rej: "\<forall>m < n0. a \<in> set (draws (j + m))"
    by blast
  from assms have "valid_sample (length train_ds) (candidate_num self) (draws (j + n0))" ..
  then have "int (length (draws (j + n0))) = candidate_num self"
    and "distinct (draws (j + n0))"
    and "\<forall>x \<in> set (draws (j + n0)). 0 \<le> x \<and> x < int (length train_ds)"
    by (auto simp: valid_sample_def list_all_iff)
  with m free rej
  show "\<exists>cl. map_of res a = Some cl \<and> a \<notin> set cl \<and>
                   int (length cl) = candidate_num self \<and> distinct cl \<and>
                   (\<forall>x \<in> set cl. 0 \<le> x \<and> x < int (length train_ds)) \<and>
                   (\<exists>j n0. cl = draws (j + n0) \<and> (\<forall>m < n0. a \<in> set (draws (j + m))))"
    by blast
next
  assume fair: "\<forall>a \<in> set anchor_set. \<forall>i. \<exists>m. a \<notin> set (draws (i + m))"
  from assms have "valid_sample (length train_ds) (candidate_num self) (draws 0)" ..
  then have "0 \<le> candidate_num self" "candidate_num self \<le> int (length train_ds)"
    using valid_sample_bounds by blast+
  from sample_loop_returns [OF this fair]
  show "\<exists>res. sample self draws anchor_set train_ds = Some (Inr res)"
    by (simp add: sample_def)
qed

text \<open>
  Three training examples, two candidates, the anchors 1 and 7: the first draw
  contains the anchor 1 and is dropped as a whole, the second is kept.
\<close>

theorem sample_candidates_witness:
  "sample example_sampler example_draws [1, 7] [ex 0 10 ''a'', ex 1 11 ''b'', ex 2 12 ''c'']
     = Some (Inr [(1, [0, 2]), (7, [0, 2])]) \<and>
   (\<exists>cl. map_of [(1, [0, 2]), (7, [0, 2])] 1 = Some cl \<and> (1::int) \<notin> set cl \<and>
          int (length cl) = 2 \<and> distinct cl \<and> (\<forall>x \<in> set cl. 0 \<le> x \<and> x < 3) \<and>
          (\<exists>j n0. cl = example_draws (j + n0) \<and> (\<forall>m < n0. 1 \<in> set (example_draws (j + m)))))"
proof -
  have run: "sample example_sampler example_draws [1, 7]
               [ex 0 10 ''a'', ex 1 11 ''b'', ex 2 12 ''c'']
             = Some (Inr [(1, [0, 2]), (7, [0, 2])])"
    by (simp add: sample_def example_sampler_def redraw_accept redraw_reject example_draws_def)
  have valid: "\<forall>i. valid_sample (length [ex 0 10 ''a'', ex 1 11 ''b'', ex 2 12 ''c''])
                      (candidate_num example_sampler) (example_draws i)"
    by (simp add: example_sampler_def valid_sample_def example_draws_def)
  from sample_candidates [OF valid, of "[1, 7]" "[(1, [0, 2]), (7, [0, 2])]" 1] run
  show ?thesis by (simp add: example_sampler_def)
qed

end
